theory Spec2Isabelle
  imports Complex_Main
begin

unbundle bit_operations_syntax

section \<open>Python values, errors and text\<close>

text \<open>
  The table renderer \<^verbatim>\<open>Texttable\<close> of \<^verbatim>\<open>batch_get_recent_summary.py\<close> is embedded
  as pure functions over an explicit table record. Every \<^verbatim>\<open>raise\<close> of the source is a
  value of \<open>error\<close>; a call that can fail returns \<open>error + 'a\<close> with \<open>Inl\<close> the error.
\<close>

datatype error =
    ArraySizeError string
  | ValueError
  | TypeError
  | AttributeError
  | OverflowError
  | IndexError
  | ZeroDivisionError

definition ESC :: char where
  "ESC = CHR 0x1B"

definition NL :: char where
  "NL = CHR 0x0A"

definition TAB :: char where
  "TAB = CHR 0x09"

definition ENDC :: string where
  "ENDC = ESC # ''[0m''"

subsection \<open>Decimal text of integers\<close>

fun str_nat :: "nat \<Rightarrow> string" where
  "str_nat n =
     (if n < 10 then [''0123456789'' ! n]
      else str_nat (n div 10) @ [''0123456789'' ! (n mod 10)])"

declare str_nat.simps [simp del]

definition str_int :: "int \<Rightarrow> string" where
  "str_int i = (if i < 0 then CHR ''-'' # str_nat (nat (- i)) else str_nat (nat i))"

subsection \<open>Rounding and the \<^verbatim>\<open>%\<close> conversions of floats\<close>

text \<open>\<^verbatim>\<open>round(f)\<close>: to the nearest integer, a tie to the even one.\<close>

definition py_round :: "rat \<Rightarrow> int" where
  "py_round q =
     (let f = \<lfloor>q\<rfloor>; d = q - of_int f in
      if d < 1 / 2 then f
      else if 1 / 2 < d then f + 1
      else if even f then f else f + 1)"

definition pow10 :: "int \<Rightarrow> rat" where
  "pow10 e = (if 0 \<le> e then 10 ^ nat e else 1 / 10 ^ nat (- e))"

text \<open>The decimal exponent of a positive rational: the \<open>e\<close> with \<open>10^e \<le> q < 10^(e+1)\<close>.\<close>

definition exp10 :: "rat \<Rightarrow> int" where
  "exp10 q =
     (let (a, b) = quotient_of q;
          e0 = int (length (str_nat (nat a))) - int (length (str_nat (nat b)))
      in if pow10 e0 \<le> q then e0 else e0 - 1)"

text \<open>
  \<^verbatim>\<open>"%.*f" % (n, f)\<close>: fixed point with \<open>n\<close> digits after the point. The float is given
  by its sign and its magnitude.
\<close>

definition fmt_f :: "nat \<Rightarrow> bool \<Rightarrow> rat \<Rightarrow> string" where
  "fmt_f n neg a =
     (let ds = str_nat (nat (py_round (a * 10 ^ n)));
          ds' = replicate (Suc n - length ds) CHR ''0'' @ ds;
          k = length ds' - n
      in (if neg then ''-'' else '''') @ take k ds'
         @ (if n = 0 then '''' else CHR ''.'' # drop k ds'))"

text \<open>\<^verbatim>\<open>"%.*e" % (n, f)\<close>: one digit, \<open>n\<close> digits after the point, a two-digit exponent.\<close>

definition fmt_e :: "nat \<Rightarrow> bool \<Rightarrow> rat \<Rightarrow> string" where
  "fmt_e n neg a =
     (let e0 = (if a = 0 then 0 else exp10 a);
          m0 = nat (py_round (a / pow10 (e0 - int n)));
          (m, e) = (if 10 ^ Suc n \<le> m0 then (m0 div 10, e0 + 1) else (m0, e0));
          ds = str_nat m;
          ds' = replicate (Suc n - length ds) CHR ''0'' @ ds;
          es = str_nat (nat \<bar>e\<bar>)
      in (if neg then ''-'' else '''') @ take 1 ds'
         @ (if n = 0 then '''' else CHR ''.'' # drop 1 ds')
         @ ''e'' @ (if e < 0 then ''-'' else ''+'')
         @ replicate (2 - length es) CHR ''0'' @ es)"

subsection \<open>The builtins \<^verbatim>\<open>float\<close> and \<^verbatim>\<open>int\<close>\<close>

text \<open>
  A finite float \<open>Finite q\<close> stands for the double whose exact value is \<open>q\<close>; \<open>NegZero\<close> is
  \<^verbatim>\<open>-0.0\<close>. Cell values are \<^verbatim>\<open>None\<close>, text, integers and floats.
\<close>

datatype pyfloat = Finite rat | NegZero | PosInf | NegInf | NaN

datatype pyval = PyNone | PyStr string | PyInt int | PyFloat pyfloat

fun negative :: "pyfloat \<Rightarrow> bool" where
  "negative (Finite q) = (q < 0)"
| "negative NegZero = True"
| "negative NegInf = True"
| "negative _ = False"

fun bit_len :: "nat \<Rightarrow> nat" where
  "bit_len n = (if n = 0 then 0 else Suc (bit_len (n div 2)))"

declare bit_len.simps [simp del]

definition pow2 :: "int \<Rightarrow> rat" where
  "pow2 e = (if 0 \<le> e then 2 ^ nat e else 1 / 2 ^ nat (- e))"

definition exp2 :: "rat \<Rightarrow> int" where
  "exp2 q =
     (let (a, b) = quotient_of q;
          e0 = int (bit_len (nat a)) - int (bit_len (nat b))
      in if pow2 e0 \<le> q then e0 else e0 - 1)"

text \<open>
  Rounding of a real value to the nearest double (53 bits, ties to even, subnormals
  below \<open>2^-1022\<close>, overflow to infinity), the sign kept apart.
\<close>

definition round_binary64 :: "bool \<Rightarrow> rat \<Rightarrow> pyfloat" where
  "round_binary64 neg a =
     (let e = (if a = 0 then 0 else max (exp2 a - 52) (- 1074));
          v = of_int (py_round (a / pow2 e)) * pow2 e
      in if 2 ^ 1024 \<le> v then (if neg then NegInf else PosInf)
         else if v = 0 \<and> neg then NegZero
         else Finite (if neg then - v else v))"

text \<open>
  \<^verbatim>\<open>float(x)\<close>. On text the builtin parses a literal; the parser \<open>fl\<close> is a parameter of
  the model (\<open>None\<close> is the builtin's \<^verbatim>\<open>ValueError\<close>).
\<close>

definition py_float :: "(string \<Rightarrow> pyfloat option) \<Rightarrow> pyval \<Rightarrow> error + pyfloat" where
  "py_float fl x =
     (case x of
        PyNone \<Rightarrow> Inl TypeError
      | PyStr s \<Rightarrow> (case fl s of None \<Rightarrow> Inl ValueError | Some f \<Rightarrow> Inr f)
      | PyInt i \<Rightarrow>
          (case round_binary64 (i < 0) (of_int \<bar>i\<bar>) of
             PosInf \<Rightarrow> Inl OverflowError
           | NegInf \<Rightarrow> Inl OverflowError
           | f \<Rightarrow> Inr f)
      | PyFloat f \<Rightarrow> Inr f)"

text \<open>
  \<^verbatim>\<open>int(x)\<close>: a float is truncated towards zero; on text the builtin parses a literal,
  the parser \<open>il\<close> being a parameter of the model.
\<close>

definition py_int :: "(string \<Rightarrow> int option) \<Rightarrow> pyval \<Rightarrow> error + int" where
  "py_int il x =
     (case x of
        PyNone \<Rightarrow> Inl TypeError
      | PyStr s \<Rightarrow> (case il s of None \<Rightarrow> Inl ValueError | Some i \<Rightarrow> Inr i)
      | PyInt i \<Rightarrow> Inr i
      | PyFloat f \<Rightarrow>
          (case f of
             Finite q \<Rightarrow> Inr (if q < 0 then - \<lfloor>- q\<rfloor> else \<lfloor>q\<rfloor>)
           | NegZero \<Rightarrow> Inr 0
           | NaN \<Rightarrow> Inl ValueError
           | _ \<Rightarrow> Inl OverflowError))"

subsection \<open>Literals of the builtins\<close>

text \<open>
  Models of the two parsers for the literals the examples use: blanks around, a sign,
  decimal digits with single underscores between them, a fraction and an exponent for
  floats, and the names \<^verbatim>\<open>inf\<close>, \<^verbatim>\<open>infinity\<close> and \<^verbatim>\<open>nan\<close> in any case.
\<close>

definition is_space :: "char \<Rightarrow> bool" where
  "is_space c = (c \<in> set [CHR '' '', CHR 0x09, CHR 0x0A, CHR 0x0B, CHR 0x0C, CHR 0x0D])"

definition strip :: "string \<Rightarrow> string" where
  "strip s = rev (dropWhile is_space (rev (dropWhile is_space s)))"

definition is_digit :: "char \<Rightarrow> bool" where
  "is_digit c = (c \<in> set ''0123456789'')"

definition digit_val :: "char \<Rightarrow> nat" where
  "digit_val c = of_char c - 48"

fun digitpart_ok :: "string \<Rightarrow> bool" where
  "digitpart_ok [] = False"
| "digitpart_ok [c] = is_digit c"
| "digitpart_ok (c # d # cs) =
     (is_digit c \<and> (if d = CHR ''_'' then cs \<noteq> [] \<and> digitpart_ok cs else digitpart_ok (d # cs)))"

definition digits_val :: "string \<Rightarrow> nat" where
  "digits_val s = fold (\<lambda>c n. 10 * n + digit_val c) (filter is_digit s) 0"

definition split_sign :: "string \<Rightarrow> bool \<times> string" where
  "split_sign s =
     (case s of
        c # cs \<Rightarrow> if c = CHR ''-'' then (True, cs) else if c = CHR ''+'' then (False, cs) else (False, s)
      | [] \<Rightarrow> (False, s))"

definition py_int_of_str :: "string \<Rightarrow> int option" where
  "py_int_of_str s =
     (let (neg, ds) = split_sign (strip s) in
      if digitpart_ok ds then Some (if neg then - int (digits_val ds) else int (digits_val ds))
      else None)"

definition lower :: "string \<Rightarrow> string" where
  "lower s =
     map (\<lambda>c. let k = (of_char c :: nat) in if 65 \<le> k \<and> k \<le> 90 then char_of (k + 32) else c) s"

definition py_float_of_str :: "string \<Rightarrow> pyfloat option" where
  "py_float_of_str s =
     (let (neg, body) = split_sign (strip s) in
      if lower body = ''inf'' \<or> lower body = ''infinity'' then Some (if neg then NegInf else PosInf)
      else if lower body = ''nan'' then Some NaN
      else
        let mant = takeWhile (\<lambda>c. c \<noteq> CHR ''e'' \<and> c \<noteq> CHR ''E'') body;
            expo = drop (length mant) body;
            ip = takeWhile (\<lambda>c. c \<noteq> CHR ''.'') mant;
            fp = drop (Suc (length ip)) mant;
            (eneg, ed) = split_sign (drop 1 expo)
        in if (ip = [] \<and> fp = []) \<or> (ip \<noteq> [] \<and> \<not> digitpart_ok ip)
              \<or> (fp \<noteq> [] \<and> \<not> digitpart_ok fp) \<or> (expo \<noteq> [] \<and> \<not> digitpart_ok ed)
           then None
           else
             let m = rat_of_nat (digits_val (ip @ fp)) / 10 ^ length (filter is_digit fp);
                 e = (if eneg then - int (digits_val ed) else int (digits_val ed))
             in Some (round_binary64 neg (m * pow10 e)))"

section \<open>The table\<close>

text \<open>
  The attributes of a \<^verbatim>\<open>Texttable\<close>. \<open>max_width\<close> is \<open>0\<close> for the constructor's
  \<^verbatim>\<open>False\<close>; an attribute that \<^verbatim>\<open>hasattr\<close> tests (\<^verbatim>\<open>_align\<close>, \<^verbatim>\<open>_valign\<close>, \<^verbatim>\<open>_dtype\<close>,
  \<^verbatim>\<open>_width\<close>) is \<open>None\<close> until it is assigned; \<^verbatim>\<open>_row_size\<close> and \<^verbatim>\<open>_hline_string\<close> start
  as \<^verbatim>\<open>None\<close>.
\<close>

record texttable =
  max_width :: int
  precision :: nat
  deco :: int
  char_horiz :: string
  char_vert :: string
  char_corner :: string
  char_header :: string
  hline_string :: "string option"
  row_size :: "nat option"
  header :: "string list"
  rows :: "string list list"
  align :: "string list option"
  valign :: "string list option"
  dtype :: "string list option"
  width :: "int list option"

text \<open>The result of a call and the table after it.\<close>

type_synonym 'a outcome = "(error + 'a) \<times> texttable"

text \<open>
  The module's own \<^verbatim>\<open>len\<close>: on text the decoding attempt raises and the handler
  returns \<^verbatim>\<open>__len__()\<close>, so it is the length in every case. Text is a list of
  characters, one for each code point.
\<close>

definition len :: "'a list \<Rightarrow> nat" where
  "len iterable = length iterable"

definition BORDER :: int where
  "BORDER = 1"

definition HEADER :: int where
  "HEADER = push_bit 1 1"

definition HLINES :: int where
  "HLINES = push_bit 2 1"

definition VLINES :: int where
  "VLINES = push_bit 3 1"

text \<open>\<^verbatim>\<open>__init__\<close> followed by \<^verbatim>\<open>set_chars(["-", "|", "+", "="])\<close> and \<^verbatim>\<open>reset()\<close>.\<close>

definition init :: "int \<Rightarrow> texttable" where
  "init mw =
     \<lparr> max_width = (if mw \<le> 0 then 0 else mw),
       precision = 3,
       deco = VLINES OR HLINES OR BORDER OR HEADER,
       char_horiz = ''-'', char_vert = ''|'', char_corner = ''+'', char_header = ''='',
       hline_string = None,
       row_size = None,
       header = [],
       rows = [],
       align = None, valign = None, dtype = None, width = None \<rparr>"

definition reset :: "texttable \<Rightarrow> texttable" where
  "reset t = t\<lparr>hline_string := None, row_size := None, header := [], rows := []\<rparr>"

text \<open>
  \<^verbatim>\<open>_check_row_size\<close>: \<^verbatim>\<open>not self._row_size\<close> holds for \<^verbatim>\<open>None\<close> and for \<open>0\<close>. A raise
  happens before any assignment.
\<close>

definition check_row_size :: "'a list \<Rightarrow> texttable \<Rightarrow> error + texttable" where
  "check_row_size array t =
     (case row_size t of
        None \<Rightarrow> Inr (t\<lparr>row_size := Some (len array)\<rparr>)
      | Some n \<Rightarrow>
          if n = 0 then Inr (t\<lparr>row_size := Some (len array)\<rparr>)
          else if n \<noteq> len array
          then Inl (ArraySizeError (''array should contain '' @ str_nat n @ '' elements''))
          else Inr t)"

definition set_chars :: "string list \<Rightarrow> texttable \<Rightarrow> unit outcome" where
  "set_chars array t =
     (if len array \<noteq> 4 then (Inl (ArraySizeError ''array should contain 4 characters''), t)
      else (let a = map (take 1) array in
            (Inr (), t\<lparr>char_horiz := a ! 0, char_vert := a ! 1,
                       char_corner := a ! 2, char_header := a ! 3\<rparr>)))"

definition set_deco :: "int \<Rightarrow> texttable \<Rightarrow> unit outcome" where
  "set_deco d t = (Inr (), t\<lparr>deco := d\<rparr>)"

definition set_cols_align :: "string list \<Rightarrow> texttable \<Rightarrow> unit outcome" where
  "set_cols_align array t =
     (case check_row_size array t of
        Inl e \<Rightarrow> (Inl e, t)
      | Inr t1 \<Rightarrow> (Inr (), t1\<lparr>align := Some array\<rparr>))"

definition set_cols_valign :: "string list \<Rightarrow> texttable \<Rightarrow> unit outcome" where
  "set_cols_valign array t =
     (case check_row_size array t of
        Inl e \<Rightarrow> (Inl e, t)
      | Inr t1 \<Rightarrow> (Inr (), t1\<lparr>valign := Some array\<rparr>))"

definition set_cols_dtype :: "string list \<Rightarrow> texttable \<Rightarrow> unit outcome" where
  "set_cols_dtype array t =
     (case check_row_size array t of
        Inl e \<Rightarrow> (Inl e, t)
      | Inr t1 \<Rightarrow> (Inr (), t1\<lparr>dtype := Some array\<rparr>))"

text \<open>A \<^verbatim>\<open>map\<close> whose function can raise stops at the first error.\<close>

fun try_map :: "('a \<Rightarrow> error + 'b) \<Rightarrow> 'a list \<Rightarrow> error + 'b list" where
  "try_map f [] = Inr []"
| "try_map f (x # xs) =
     (case f x of
        Inl e \<Rightarrow> Inl e
      | Inr y \<Rightarrow> (case try_map f xs of Inl e \<Rightarrow> Inl e | Inr ys \<Rightarrow> Inr (y # ys)))"

text \<open>
  \<^verbatim>\<open>set_cols_width\<close>: the row size is checked (and fixed) first, then every element goes
  through \<^verbatim>\<open>int\<close>, then the minimum is compared with \<open>0\<close>; \<^verbatim>\<open>reduce\<close> of an empty list is
  a \<^verbatim>\<open>TypeError\<close>. The handler re-raises what it caught.
\<close>

definition set_cols_width ::
  "(string \<Rightarrow> int option) \<Rightarrow> pyval list \<Rightarrow> texttable \<Rightarrow> unit outcome" where
  "set_cols_width il array t =
     (case check_row_size array t of
        Inl e \<Rightarrow> (Inl e, t)
      | Inr t1 \<Rightarrow>
          (case try_map (py_int il) array of
             Inl e \<Rightarrow> (Inl e, t1)
           | Inr a \<Rightarrow>
               (case a of
                  [] \<Rightarrow> (Inl TypeError, t1)
                | w # ws \<Rightarrow>
                    if fold min ws w \<le> 0 then (Inl ValueError, t1)
                    else (Inr (), t1\<lparr>width := Some a\<rparr>))))"

text \<open>\<^verbatim>\<open>set_precision\<close>: the argument must be of type \<^verbatim>\<open>int\<close> and not negative.\<close>

definition set_precision :: "pyval \<Rightarrow> texttable \<Rightarrow> unit outcome" where
  "set_precision w t =
     (case w of
        PyInt i \<Rightarrow> if i < 0 then (Inl ValueError, t) else (Inr (), t\<lparr>precision := nat i\<rparr>)
      | _ \<Rightarrow> (Inl ValueError, t))"

text \<open>
  The method \<^verbatim>\<open>header\<close>. Its cells are taken as text, on which \<^verbatim>\<open>str\<close> is the identity.
\<close>

definition header_m :: "string list \<Rightarrow> texttable \<Rightarrow> unit outcome" where
  "header_m array t =
     (case check_row_size array t of
        Inl e \<Rightarrow> (Inl e, t)
      | Inr t1 \<Rightarrow> (Inr (), t1\<lparr>header := array\<rparr>))"

subsection \<open>Cell normalization\<close>

text \<open>
  The handler of \<^verbatim>\<open>_str\<close> (and its branch for the dtype \<^verbatim>\<open>"t"\<close>): text is returned as it
  is, \<^verbatim>\<open>None\<close> as \<^verbatim>\<open>str(None)\<close>; any other value is sent \<^verbatim>\<open>encode\<close>, which integers and
  floats do not have.
\<close>

definition text_form :: "pyval \<Rightarrow> error + string" where
  "text_form x =
     (case x of
        PyStr s \<Rightarrow> Inr s
      | PyNone \<Rightarrow> Inr ''None''
      | _ \<Rightarrow> Inl AttributeError)"

text \<open>
  \<^verbatim>\<open>_str(i, x)\<close>. The \<^verbatim>\<open>try\<close> block converts with \<^verbatim>\<open>float\<close> and raises on \<^verbatim>\<open>nan\<close>, \<^verbatim>\<open>inf\<close>
  and \<^verbatim>\<open>-inf\<close>; its bare \<^verbatim>\<open>except\<close> catches every error. After it the float is finite:
  \<open>a\<close> is its magnitude and \<open>neg\<close> its sign.
\<close>

definition format_number :: "texttable \<Rightarrow> nat \<Rightarrow> pyval \<Rightarrow> bool \<Rightarrow> rat \<Rightarrow> error + string" where
  "format_number t i x neg a =
     (let n = precision t in
      case dtype t of
        None \<Rightarrow> Inl AttributeError
      | Some ds \<Rightarrow>
          if len ds \<le> i then Inl IndexError
          else
            let d = ds ! i; r = (if neg then - py_round a else py_round a) in
            if d = ''i'' then Inr (str_int r)
            else if d = ''f'' then Inr (fmt_f n neg a)
            else if d = ''e'' then Inr (fmt_e n neg a)
            else if d = ''t'' then text_form x
            else if a - of_int (py_round a) = 0
            then (if a > 10 ^ 8 then Inr (fmt_e n neg a) else Inr (str_int r))
            else (if a > 10 ^ 8 then Inr (fmt_e n neg a) else Inr (fmt_f n neg a)))"

definition str :: "(string \<Rightarrow> pyfloat option) \<Rightarrow> texttable \<Rightarrow> nat \<Rightarrow> pyval \<Rightarrow> error + string" where
  "str fl t i x =
     (case py_float fl x of
        Inl e \<Rightarrow> text_form x
      | Inr f \<Rightarrow>
          (case f of
             Finite q \<Rightarrow> format_number t i x (q < 0) \<bar>q\<bar>
           | NegZero \<Rightarrow> format_number t i x True 0
           | _ \<Rightarrow> text_form x))"

text \<open>\<^verbatim>\<open>add_row\<close>: the default dtypes are set before the cells are normalized.\<close>

definition add_row ::
  "(string \<Rightarrow> pyfloat option) \<Rightarrow> pyval list \<Rightarrow> texttable \<Rightarrow> unit outcome" where
  "add_row fl array t =
     (case check_row_size array t of
        Inl e \<Rightarrow> (Inl e, t)
      | Inr t1 \<Rightarrow>
          (case (case dtype t1 of
                   Some _ \<Rightarrow> Inr t1
                 | None \<Rightarrow>
                     (case row_size t1 of
                        None \<Rightarrow> Inl TypeError
                      | Some n \<Rightarrow> Inr (t1\<lparr>dtype := Some (replicate n ''a'')\<rparr>))) of
             Inl e \<Rightarrow> (Inl e, t1)
           | Inr t2 \<Rightarrow>
               (case try_map (\<lambda>(i, x). str fl t2 i x) (zip [0..<len array] array) of
                  Inl e \<Rightarrow> (Inl e, t2)
                | Inr cells \<Rightarrow> (Inr (), t2\<lparr>rows := rows t2 @ [cells]\<rparr>))))"

section \<open>Column widths\<close>

subsection \<open>Escape sequences and the width of a cell\<close>

text \<open>
  The regular expression \<^verbatim>\<open>\x1b[^m]*m\<close>: an escape character, then everything up to the
  next \<^verbatim>\<open>m\<close>. \<open>strip_ansi\<close> is its \<^verbatim>\<open>sub("", cell)\<close> and \<open>find_ansi\<close> its \<^verbatim>\<open>findall\<close>.
\<close>

function strip_ansi :: "string \<Rightarrow> string" where
  "strip_ansi [] = []"
| "strip_ansi (c # cs) =
     (if c = ESC \<and> CHR ''m'' \<in> set cs
      then strip_ansi (tl (dropWhile (\<lambda>x. x \<noteq> CHR ''m'') cs))
      else c # strip_ansi cs)"
  by pat_completeness auto
termination
  by (relation "measure length")
     (auto simp: less_Suc_eq_le intro!: le_trans [OF diff_le_self length_dropWhile_le])

function find_ansi :: "string \<Rightarrow> string list" where
  "find_ansi [] = []"
| "find_ansi (c # cs) =
     (if c = ESC \<and> CHR ''m'' \<in> set cs
      then (c # takeWhile (\<lambda>x. x \<noteq> CHR ''m'') cs @ ''m'')
           # find_ansi (tl (dropWhile (\<lambda>x. x \<noteq> CHR ''m'') cs))
      else find_ansi cs)"
  by pat_completeness auto
termination
  by (relation "measure length")
     (auto simp: less_Suc_eq_le intro!: le_trans [OF diff_le_self length_dropWhile_le])

text \<open>\<^verbatim>\<open>s.split(d)\<close> for a one-character separator: never empty.\<close>

fun split_on :: "char \<Rightarrow> string \<Rightarrow> string list" where
  "split_on d [] = [[]]"
| "split_on d (c # cs) =
     (if c = d then [] # split_on d cs
      else (case split_on d cs of [] \<Rightarrow> [[c]] | x # xs \<Rightarrow> (c # x) # xs))"

text \<open>The inner loop of \<^verbatim>\<open>_len_cell\<close>: a tab moves to the next multiple of 8.\<close>

definition len_line :: "string \<Rightarrow> nat" where
  "len_line line =
     (let parts = split_on TAB line in
      fold (\<lambda>(part, i) length.
              let l = length + len part in
              if i < len parts then (l div 8 + 1) * 8 else l)
           (zip parts [1..<len parts + 1]) 0)"

definition len_cell :: "string \<Rightarrow> nat" where
  "len_cell cell =
     fold (\<lambda>line maxi. max maxi (len_line line)) (split_on NL (strip_ansi cell)) 0"

subsection \<open>The widths the content asks for\<close>

text \<open>
  The first loop of \<^verbatim>\<open>_compute_cols_width\<close>: \<^verbatim>\<open>maxi[i]\<close> is raised to the cell's width, and
  the handler of \<^verbatim>\<open>IndexError\<close> appends when the column is new.
\<close>

definition widen :: "string \<times> nat \<Rightarrow> int list \<Rightarrow> int list" where
  "widen ci maxi =
     (case ci of (cell, i) \<Rightarrow>
        if i < len maxi then maxi[i := max (maxi ! i) (int (len_cell cell))]
        else maxi @ [int (len_cell cell)])"

definition natural_widths :: "texttable \<Rightarrow> int list" where
  "natural_widths t =
     fold (\<lambda>row. fold widen (zip row [0..<len row])) (rows t)
          (if header t \<noteq> [] then map (\<lambda>x. int (len_cell x)) (header t) else [])"

subsection \<open>Shrinking to the maximal width\<close>

text \<open>
  \<^verbatim>\<open>int(math.ceil(float(free) / float(oversized)))\<close> on integers small enough for the
  float division to be exact to the ceiling.
\<close>

definition py_ceil_div :: "int \<Rightarrow> int \<Rightarrow> int" where
  "py_ceil_div a b = - ((- a) div b)"

text \<open>The loop variables \<^verbatim>\<open>maxi\<close>, \<^verbatim>\<open>free\<close> and \<^verbatim>\<open>oversized\<close>.\<close>

type_synonym shrink_state = "int list \<times> int \<times> int"

definition reduce_step :: "int list \<Rightarrow> nat \<Rightarrow> shrink_state \<Rightarrow> shrink_state" where
  "reduce_step max_lengths col s =
     (case s of (maxi, free, oversized) \<Rightarrow>
        let max_len = max_lengths ! col; current_length = maxi ! col in
        if current_length > max_len
        then (maxi[col := max_len], free + (current_length - max_len), oversized)
        else if max_len > current_length then (maxi, free, oversized + 1)
        else (maxi, free, oversized))"

definition distribute_step :: "int list \<Rightarrow> int \<Rightarrow> nat \<Rightarrow> shrink_state \<Rightarrow> shrink_state" where
  "distribute_step max_lengths free_part col s =
     (case s of (maxi, free, oversized) \<Rightarrow>
        let max_len = max_lengths ! col; current_length = maxi ! col in
        if current_length < max_len
        then (let needed = max_len - current_length in
              if needed \<le> free_part
              then (maxi[col := max_len], free - needed, oversized - 1)
              else (maxi[col := maxi ! col + free_part], free - free_part, oversized))
        else (maxi, free, oversized))"

text \<open>
  The loop \<^verbatim>\<open>while free > 0\<close>. It is a partial function: \<open>None\<close> stands for a loop that
  never ends. The float division raises on \<open>oversized = 0\<close>.
\<close>

partial_function (option) distribute ::
  "int list \<Rightarrow> shrink_state \<Rightarrow> (error + shrink_state) option" where
  "distribute max_lengths s =
     (case s of (maxi, free, oversized) \<Rightarrow>
        if free > 0
        then (if oversized = 0 then Some (Inl ZeroDivisionError)
              else distribute max_lengths
                     (fold (distribute_step max_lengths (py_ceil_div free oversized))
                        [0..<len max_lengths] s))
        else Some (Inr s))"

declare distribute.simps [code]

text \<open>The branch taken when the table does not fit: the state when the loop is left.\<close>

definition shrink :: "int \<Rightarrow> int list \<Rightarrow> (error + shrink_state) option" where
  "shrink mw max_lengths =
     (let items = len max_lengths;
          maxi = replicate items ((mw - int items * 3 - 1) div int items)
      in distribute max_lengths
           (fold (reduce_step max_lengths) [0..<items] (maxi, 0, 0)))"

text \<open>
  \<^verbatim>\<open>_compute_cols_width\<close> after the first loop: \<^verbatim>\<open>reduce\<close> of an empty list is a
  \<^verbatim>\<open>TypeError\<close>.
\<close>

definition fit_widths :: "int \<Rightarrow> int list \<Rightarrow> (error + int list) option" where
  "fit_widths mw maxi =
     (let items = len maxi in
      if maxi = [] then Some (Inl TypeError)
      else if mw \<noteq> 0 \<and> sum_list maxi + int items * 3 + 1 > mw
      then (case shrink mw maxi of
              None \<Rightarrow> None
            | Some (Inl e) \<Rightarrow> Some (Inl e)
            | Some (Inr s) \<Rightarrow> Some (Inr (fst s)))
      else Some (Inr maxi))"

definition compute_cols_width :: "texttable \<Rightarrow> (error + texttable) option" where
  "compute_cols_width t =
     (case width t of
        Some w \<Rightarrow> Some (Inr t)
      | None \<Rightarrow>
          (case fit_widths (max_width t) (natural_widths t) of
             None \<Rightarrow> None
           | Some (Inl e) \<Rightarrow> Some (Inl e)
           | Some (Inr maxi) \<Rightarrow> Some (Inr (t\<lparr>width := Some maxi\<rparr>))))"

section \<open>Drawing\<close>

definition has_vlines :: "texttable \<Rightarrow> bool" where
  "has_vlines t = (deco t AND VLINES > 0)"

definition has_hlines :: "texttable \<Rightarrow> bool" where
  "has_hlines t = (deco t AND HLINES > 0)"

definition has_border :: "texttable \<Rightarrow> bool" where
  "has_border t = (deco t AND BORDER > 0)"

definition has_header :: "texttable \<Rightarrow> bool" where
  "has_header t = (deco t AND HEADER > 0)"

text \<open>\<^verbatim>\<open>s.join(parts)\<close>, and \<^verbatim>\<open>s * n\<close>, which is empty for a negative \<open>n\<close>.\<close>

fun join :: "string \<Rightarrow> string list \<Rightarrow> string" where
  "join s [] = []"
| "join s [x] = x"
| "join s (x # y # ys) = x @ s @ join s (y # ys)"

definition times :: "string \<Rightarrow> int \<Rightarrow> string" where
  "times s n = concat (replicate (nat n) s)"

definition build_hline :: "bool \<Rightarrow> texttable \<Rightarrow> error + string" where
  "build_hline is_header t =
     (let horiz = (if is_header then char_header t else char_horiz t);
          s = horiz @ (if has_vlines t then char_corner t else horiz) @ horiz
      in case width t of
           None \<Rightarrow> Inl AttributeError
         | Some ws \<Rightarrow>
             (let l = join s (map (times horiz) ws) in
              Inr (if has_border t
                   then char_corner t @ horiz @ l @ horiz @ char_corner t @ [NL]
                   else l @ [NL])))"

definition hline_header :: "texttable \<Rightarrow> error + string" where
  "hline_header t = build_hline True t"

text \<open>\<^verbatim>\<open>_hline\<close>: the line is built once and kept in \<^verbatim>\<open>_hline_string\<close>.\<close>

definition hline :: "texttable \<Rightarrow> string outcome" where
  "hline t =
     (if hline_string t = None \<or> hline_string t = Some []
      then (case build_hline False t of
              Inl e \<Rightarrow> (Inl e, t)
            | Inr s \<Rightarrow> (Inr s, t\<lparr>hline_string := Some s\<rparr>))
      else (case hline_string t of Some s \<Rightarrow> (Inr s, t) | None \<Rightarrow> (Inl AttributeError, t)))"

text \<open>\<^verbatim>\<open>_check_align\<close>: \<^verbatim>\<open>["l"] * None\<close> is a \<^verbatim>\<open>TypeError\<close>.\<close>

definition default_cols :: "string \<Rightarrow> texttable \<Rightarrow> error + string list" where
  "default_cols v t = (case row_size t of None \<Rightarrow> Inl TypeError | Some n \<Rightarrow> Inr (replicate n v))"

definition check_align :: "texttable \<Rightarrow> error + texttable" where
  "check_align t =
     (case (case align t of
              Some _ \<Rightarrow> Inr t
            | None \<Rightarrow> (case default_cols ''l'' t of
                         Inl e \<Rightarrow> Inl e
                       | Inr a \<Rightarrow> Inr (t\<lparr>align := Some a\<rparr>))) of
        Inl e \<Rightarrow> Inl e
      | Inr t1 \<Rightarrow>
          (case valign t1 of
             Some _ \<Rightarrow> Inr t1
           | None \<Rightarrow> (case default_cols ''t'' t1 of
                        Inl e \<Rightarrow> Inl e
                      | Inr a \<Rightarrow> Inr (t1\<lparr>valign := Some a\<rparr>))))"

subsection \<open>Wrapping the cells of a line\<close>

text \<open>
  The bookkeeping of \<^verbatim>\<open>_splitit\<close> over the escape sequences of one line of a cell: a
  reset pops the last open code, any other code is pushed.
\<close>

definition keep_step :: "string \<Rightarrow> string list \<Rightarrow> string list" where
  "keep_step a ansi_keep =
     (if a = ENDC then (if len ansi_keep > 0 then butlast ansi_keep else ansi_keep)
      else ansi_keep @ [a])"

text \<open>
  The loop over \<^verbatim>\<open>cell.split("\n")\<close>: the codes open at the end of the previous line are
  put in front, the codes open at the end of this one are closed by one reset each, and
  the whole is handed to \<^verbatim>\<open>textwrap.wrap\<close>, the parameter \<open>wr\<close>, with the width raised by
  the length of all the codes.
\<close>

fun wrap_lines ::
  "(string \<Rightarrow> int \<Rightarrow> error + string list) \<Rightarrow> int \<Rightarrow> string list \<Rightarrow> string list
   \<Rightarrow> error + string list" where
  "wrap_lines wr w ansi_keep [] = Inr []"
| "wrap_lines wr w ansi_keep (c0 # cs) =
     (let c = concat ansi_keep @ c0;
          codes = find_ansi c;
          keep = fold keep_step codes [];
          closing = concat (replicate (len keep) ENDC);
          extra_width = int (sum_list (map len codes)) + int (len closing)
      in case wr (c @ closing) (w + extra_width) of
           Inl e \<Rightarrow> Inl e
         | Inr ls \<Rightarrow>
             (case wrap_lines wr w keep cs of
                Inl e \<Rightarrow> Inl e
              | Inr rest \<Rightarrow> Inr (ls @ rest)))"

definition pad_cell :: "bool \<Rightarrow> nat \<Rightarrow> string list \<times> string \<Rightarrow> string list" where
  "pad_cell isheader max_cell_lines cv =
     (case cv of (cell, va) \<Rightarrow>
        let v = (if isheader then ''t'' else va);
            missing = max_cell_lines - len cell
        in if v = ''m''
           then replicate (missing div 2) [] @ cell @ replicate (missing div 2 + missing mod 2) []
           else if v = ''b'' then replicate missing [] @ cell
           else cell @ replicate missing [])"

definition splitit ::
  "(string \<Rightarrow> int \<Rightarrow> error + string list) \<Rightarrow> string list \<Rightarrow> bool \<Rightarrow> texttable
   \<Rightarrow> error + string list list" where
  "splitit wr line isheader t =
     (case width t of
        None \<Rightarrow> Inl AttributeError
      | Some ws \<Rightarrow>
          (case try_map (\<lambda>(cell, w). wrap_lines wr w [] (split_on NL cell)) (zip line ws) of
             Inl e \<Rightarrow> Inl e
           | Inr line_wrapped \<Rightarrow>
               (case map len line_wrapped of
                  [] \<Rightarrow> Inl TypeError
                | n # ns \<Rightarrow>
                    (case valign t of
                       None \<Rightarrow> Inl AttributeError
                     | Some vs \<Rightarrow>
                         Inr (map (pad_cell isheader (fold max ns n)) (zip line_wrapped vs)
                              @ drop (len vs) line_wrapped)))))"

subsection \<open>Lines and the whole table\<close>

definition draw_cell ::
  "texttable \<Rightarrow> bool \<Rightarrow> nat \<Rightarrow> nat \<Rightarrow> nat \<times> string list \<times> int \<times> string \<Rightarrow> error + string" where
  "draw_cell t isheader n i c =
     (case c of (k, cell, w, al) \<Rightarrow>
        if len cell \<le> i then Inl IndexError
        else
          let cell_line = cell ! i;
              fill = w - int (len (strip_ansi cell_line));
              a = (if isheader then ''c'' else al);
              body =
                (if a = ''r'' then times '' '' fill @ cell_line @ '' ''
                 else if a = ''c''
                 then times '' '' (fill div 2) @ cell_line
                      @ times '' '' (fill div 2 + fill mod 2) @ '' ''
                 else cell_line @ times '' '' fill @ '' '')
          in Inr (body @ (if k < n
                          then (if has_vlines t then char_vert t else '' '') @ '' ''
                          else [])))"

definition draw_line ::
  "(string \<Rightarrow> int \<Rightarrow> error + string list) \<Rightarrow> string list \<Rightarrow> bool \<Rightarrow> texttable
   \<Rightarrow> error + string" where
  "draw_line wr line isheader t =
     (case splitit wr line isheader t of
        Inl e \<Rightarrow> Inl e
      | Inr lw \<Rightarrow>
          (case lw of
             [] \<Rightarrow> Inl IndexError
           | c0 # _ \<Rightarrow>
               (case (width t, align t) of
                  (Some ws, Some als) \<Rightarrow>
                    (case try_map
                            (\<lambda>i. case try_map (draw_cell t isheader (len lw) i)
                                         (zip [1..<len lw + 1] (zip lw (zip ws als))) of
                                   Inl e \<Rightarrow> Inl e
                                 | Inr cells \<Rightarrow>
                                     Inr ((if has_border t then char_vert t @ '' '' else [])
                                          @ concat cells
                                          @ (if has_border t then char_vert t else []) @ [NL]))
                            [0..<len c0] of
                       Inl e \<Rightarrow> Inl e
                     | Inr ls \<Rightarrow> Inr (concat ls))
                | _ \<Rightarrow> Inl AttributeError)))"

text \<open>The loop of \<^verbatim>\<open>draw\<close> over the rows; \<open>k\<close> counts the rows drawn so far.\<close>

fun draw_rows ::
  "(string \<Rightarrow> int \<Rightarrow> error + string list) \<Rightarrow> nat \<Rightarrow> string list list \<Rightarrow> string \<Rightarrow> texttable
   \<Rightarrow> string outcome" where
  "draw_rows wr k [] out t = (Inr out, t)"
| "draw_rows wr k (row # rs) out t =
     (case draw_line wr row False t of
        Inl e \<Rightarrow> (Inl e, t)
      | Inr l \<Rightarrow>
          if has_hlines t \<and> k + 1 < len (rows t)
          then (case hline t of
                  (Inl e, t1) \<Rightarrow> (Inl e, t1)
                | (Inr h, t1) \<Rightarrow> draw_rows wr (k + 1) rs (out @ l @ h) t1)
          else draw_rows wr (k + 1) rs (out @ l) t)"

text \<open>
  \<^verbatim>\<open>draw\<close>. The result \<open>None\<close> inside is Python's \<^verbatim>\<open>None\<close> of the bare \<^verbatim>\<open>return\<close>; the
  outer \<open>option\<close> is that of the width loop.
\<close>

definition draw_table ::
  "(string \<Rightarrow> int \<Rightarrow> error + string list) \<Rightarrow> texttable \<Rightarrow> (string option) outcome" where
  "draw_table wr t =
     (case (if has_border t then hline t else (Inr [], t)) of
        (Inl e, t1) \<Rightarrow> (Inl e, t1)
      | (Inr upper, t1) \<Rightarrow>
          (case (if header t1 \<noteq> []
                 then (case draw_line wr (header t1) True t1 of
                         Inl e \<Rightarrow> Inl e
                       | Inr l \<Rightarrow>
                           if has_header t1
                           then (case hline_header t1 of Inl e \<Rightarrow> Inl e | Inr h \<Rightarrow> Inr (l @ h))
                           else Inr l)
                 else Inr []) of
             Inl e \<Rightarrow> (Inl e, t1)
           | Inr head \<Rightarrow>
               (case draw_rows wr 0 (rows t1) (upper @ head) t1 of
                  (Inl e, t2) \<Rightarrow> (Inl e, t2)
                | (Inr out, t2) \<Rightarrow>
                    (case (if has_border t2 then hline t2 else (Inr [], t2)) of
                       (Inl e, t3) \<Rightarrow> (Inl e, t3)
                     | (Inr bottom, t3) \<Rightarrow> (Inr (Some (butlast (out @ bottom))), t3)))))"

definition draw ::
  "(string \<Rightarrow> int \<Rightarrow> error + string list) \<Rightarrow> texttable \<Rightarrow> ((string option) outcome) option" where
  "draw wr t =
     (if header t = [] \<and> rows t = [] then Some (Inr None, t)
      else (case compute_cols_width t of
              None \<Rightarrow> None
            | Some (Inl e) \<Rightarrow> Some (Inl e, t)
            | Some (Inr t1) \<Rightarrow>
                (case check_align t1 of
                   Inl e \<Rightarrow> Some (Inl e, t1)
                 | Inr t2 \<Rightarrow> Some (draw_table wr t2))))"

subsection \<open>A model of \<^verbatim>\<open>textwrap.wrap\<close>\<close>

text \<open>
  The library's greedy wrapping with its default options, for text whose words hold no
  hyphen and no tab: the text is cut into runs of blanks and runs of other characters;
  a line takes the runs that fit; a run longer than the width is broken; a run of
  blanks is dropped at the end of a line and at the start of every line but the first.
  A width that is not positive is a \<^verbatim>\<open>ValueError\<close>.
\<close>

fun chunks :: "string \<Rightarrow> string list" where
  "chunks [] = []"
| "chunks (c # cs) =
     (case chunks cs of
        [] \<Rightarrow> [[c]]
      | [] # rest \<Rightarrow> [c] # rest
      | (d # ds) # rest \<Rightarrow>
          if (c = CHR '' '') = (d = CHR '' '') then (c # d # ds) # rest
          else [c] # (d # ds) # rest)"

definition blank :: "string \<Rightarrow> bool" where
  "blank s = (\<forall>c\<in>set s. c = CHR '' '')"

fun take_fitting :: "nat \<Rightarrow> nat \<Rightarrow> string list \<Rightarrow> string list \<times> string list" where
  "take_fitting w cur_len [] = ([], [])"
| "take_fitting w cur_len (ch # chs) =
     (if cur_len + len ch \<le> w
      then (case take_fitting w (cur_len + len ch) chs of (a, b) \<Rightarrow> (ch # a, b))
      else ([], ch # chs))"

definition one_line :: "nat \<Rightarrow> string list \<Rightarrow> string list \<times> string list" where
  "one_line w chs =
     (case take_fitting w 0 chs of (cur, rest) \<Rightarrow>
        (case rest of
           [] \<Rightarrow> (cur, rest)
         | ch # chs' \<Rightarrow>
             if len ch > w
             then (let space_left = (if w < 1 then 1 else w - len (concat cur))
                   in (cur @ [take space_left ch], drop space_left ch # chs'))
             else (cur, rest)))"

definition drop_blank :: "string list \<Rightarrow> string list" where
  "drop_blank cur = (if cur \<noteq> [] \<and> blank (last cur) then butlast cur else cur)"

definition skip_blank :: "bool \<Rightarrow> string list \<Rightarrow> string list" where
  "skip_blank started chs = (if started \<and> chs \<noteq> [] \<and> blank (hd chs) then tl chs else chs)"

definition weight :: "string list \<Rightarrow> nat" where
  "weight chs = length (concat chs) + length chs"

lemma take_fitting_append: "take_fitting w c chs = (a, b) \<Longrightarrow> chs = a @ b"
  by (induction chs arbitrary: c a b) (auto split: if_splits prod.splits)

lemma take_fitting_first:
  "take_fitting w c (ch # chs) = ([], b) \<Longrightarrow> w < c + len ch"
  by (auto split: if_splits prod.splits)

lemma one_line_weight:
  assumes "chs \<noteq> []"
  shows "weight (snd (one_line w chs)) < weight chs"
proof -
  obtain a b where tf: "take_fitting w 0 chs = (a, b)" by (cases "take_fitting w 0 chs")
  then have chs: "chs = a @ b" by (rule take_fitting_append)
  show ?thesis
  proof (cases b)
    case Nil
    with tf assms show ?thesis by (simp add: one_line_def weight_def)
  next
    case (Cons ch chs')
    show ?thesis
    proof (cases a)
      case Nil
      with chs Cons tf have "w < len ch" using take_fitting_first [of w 0 ch chs' b] by simp
      with Nil Cons tf chs show ?thesis
        by (auto simp: one_line_def weight_def len_def)
    next
      case (Cons x xs)
      with \<open>b = ch # chs'\<close> tf chs show ?thesis
        by (auto simp: one_line_def weight_def Let_def)
    qed
  qed
qed

lemma skip_blank_weight: "weight (skip_blank started chs) \<le> weight chs"
  by (cases chs) (auto simp: skip_blank_def weight_def)

function wrap_chunks :: "nat \<Rightarrow> bool \<Rightarrow> string list \<Rightarrow> string list" where
  "wrap_chunks w started chs =
     (if skip_blank started chs = [] then []
      else (let cur_line = drop_blank (fst (one_line w (skip_blank started chs)))
            in (if cur_line \<noteq> [] then [concat cur_line] else [])
               @ wrap_chunks w (started \<or> cur_line \<noteq> []) (snd (one_line w (skip_blank started chs)))))"
  by pat_completeness auto
termination
proof (relation "measure (\<lambda>(w, started, chs). weight chs)")
  fix w :: nat and started :: bool and chs :: "string list" and x :: "string list"
  assume "skip_blank started chs \<noteq> []"
  then have "weight (snd (one_line w (skip_blank started chs))) < weight (skip_blank started chs)"
    by (rule one_line_weight)
  also have "\<dots> \<le> weight chs" by (rule skip_blank_weight)
  finally show "((w, started \<or> x \<noteq> [], snd (one_line w (skip_blank started chs))), (w, started, chs))
        \<in> measure (\<lambda>(w, started, chs). weight chs)"
    by simp
qed simp

declare wrap_chunks.simps [simp del]

definition textwrap_wrap :: "string \<Rightarrow> int \<Rightarrow> error + string list" where
  "textwrap_wrap text w =
     (if w \<le> 0 then Inl ValueError
      else Inr (wrap_chunks (nat w) False
                  (chunks (map (\<lambda>c. if is_space c then CHR '' '' else c) text))))"

section \<open>The redistribution as the specification words it\<close>

text \<open>
  Every column starts at the equal budget; a column whose natural width is below the
  budget takes its natural width and surrenders the slack; the slack is then handed out
  in passes of \<open>ceil(free / oversized_count)\<close> to the columns still below their natural
  width, until the slack is exhausted or every column is satisfied. A column is a pair
  of its current and its natural width.
\<close>

definition spec_budget :: "int \<Rightarrow> int list \<Rightarrow> int" where
  "spec_budget mw ws = (mw - 3 * int (length ws) - 1) div int (length ws)"

definition spec_start :: "int \<Rightarrow> int list \<Rightarrow> (int \<times> int) list" where
  "spec_start mw ws = map (\<lambda>m. (min (spec_budget mw ws) m, m)) ws"

definition spec_slack :: "int \<Rightarrow> int list \<Rightarrow> int" where
  "spec_slack mw ws = (\<Sum>m\<leftarrow>ws. if m < spec_budget mw ws then spec_budget mw ws - m else 0)"

definition spec_oversized :: "(int \<times> int) list \<Rightarrow> (int \<times> int) list" where
  "spec_oversized cols = filter (\<lambda>(w, m). w < m) cols"

definition spec_top_up :: "int \<Rightarrow> (int \<times> int) list \<Rightarrow> (int \<times> int) list" where
  "spec_top_up part cols = map (\<lambda>(w, m). if w < m then (w + min (m - w) part, m) else (w, m)) cols"

definition spec_total :: "(int \<times> int) list \<Rightarrow> int" where
  "spec_total cols = sum_list (map fst cols)"

lemma py_ceil_div_pos: "0 < a \<Longrightarrow> 0 < b \<Longrightarrow> 1 \<le> py_ceil_div a b"
proof -
  assume a: "0 < a" and b: "0 < b"
  have "(- a) div b < 0" using a b by (simp add: div_neg_pos_less0)
  then show ?thesis by (simp add: py_ceil_div_def)
qed

lemma spec_top_up_total_le: "0 \<le> part \<Longrightarrow> spec_total cols \<le> spec_total (spec_top_up part cols)"
  by (induction cols) (auto simp: spec_total_def spec_top_up_def)

lemma spec_top_up_gain:
  "1 \<le> part \<Longrightarrow> spec_oversized cols \<noteq> [] \<Longrightarrow> spec_total cols < spec_total (spec_top_up part cols)"
proof (induction cols)
  case Nil
  then show ?case by (simp add: spec_oversized_def)
next
  case (Cons c cols)
  obtain w m where c: "c = (w, m)" by (cases c)
  have le: "spec_total cols \<le> spec_total (spec_top_up part cols)"
    using Cons.prems(1) by (simp add: spec_top_up_total_le)
  show ?case
  proof (cases "w < m")
    case True
    then have "w < w + min (m - w) part" using Cons.prems(1) by simp
    with le True show ?thesis by (simp add: c spec_total_def spec_top_up_def)
  next
    case False
    then have "spec_oversized cols \<noteq> []" using Cons.prems(2) by (simp add: c spec_oversized_def)
    then have "spec_total cols < spec_total (spec_top_up part cols)" using Cons by simp
    with False show ?thesis by (simp add: c spec_total_def spec_top_up_def)
  qed
qed

function spec_redistribute :: "(int \<times> int) list \<Rightarrow> int \<Rightarrow> (int \<times> int) list" where
  "spec_redistribute cols free =
     (if free > 0 \<and> spec_oversized cols \<noteq> []
      then spec_redistribute
             (spec_top_up (py_ceil_div free (int (length (spec_oversized cols)))) cols)
             (free - (spec_total (spec_top_up (py_ceil_div free (int (length (spec_oversized cols)))) cols)
                      - spec_total cols))
      else cols)"
  by pat_completeness auto
termination
proof (relation "measure (\<lambda>(cols, free). nat free)")
  fix cols :: "(int \<times> int) list" and free :: int
  assume a: "0 < free \<and> spec_oversized cols \<noteq> []"
  then have "0 < int (length (spec_oversized cols))" by simp
  with a have "1 \<le> py_ceil_div free (int (length (spec_oversized cols)))"
    by (simp add: py_ceil_div_pos)
  with a have "spec_total cols
      < spec_total (spec_top_up (py_ceil_div free (int (length (spec_oversized cols)))) cols)"
    by (simp add: spec_top_up_gain)
  with a show "((spec_top_up (py_ceil_div free (int (length (spec_oversized cols)))) cols,
         free - (spec_total (spec_top_up (py_ceil_div free (int (length (spec_oversized cols)))) cols)
                 - spec_total cols)), (cols, free)) \<in> measure (\<lambda>(cols, free). nat free)"
    by simp
qed simp

declare spec_redistribute.simps [simp del]

definition spec_widths :: "int \<Rightarrow> int list \<Rightarrow> int list" where
  "spec_widths mw ws = map fst (spec_redistribute (spec_start mw ws) (spec_slack mw ws))"

section \<open>Tables of the examples\<close>

text \<open>A header of three cells of 20 characters, \<open>max_width = 30\<close>.\<close>

definition wide_header :: texttable where
  "wide_header =
     snd (header_m [''aaaaaaaaaaaaaaaaaaaa'', ''bbbbbbbbbbbbbbbbbbbb'', ''cccccccccccccccccccc'']
            (init 30))"

text \<open>A table of three columns of dtype \<open>auto\<close>, and one with the header \<^verbatim>\<open>["a", "b"]\<close>.\<close>

definition auto_table :: texttable where
  "auto_table = (init 80)\<lparr>row_size := Some 3, dtype := Some [''a'', ''a'', ''a'']\<rparr>"

definition two_cols :: texttable where
  "two_cols = snd (header_m [''a'', ''b''] (init 80))"

text \<open>
  One row, the table after its first \<^verbatim>\<open>draw\<close>, a second row added after that, and both
  rows added before any \<^verbatim>\<open>draw\<close>.
\<close>

definition one_row :: texttable where
  "one_row = snd (add_row py_float_of_str [PyStr ''a''] (init 80))"

definition one_row_drawn :: texttable where
  "one_row_drawn =
     one_row\<lparr>hline_string := Some (''+---+'' @ [NL]), align := Some [''l''],
       valign := Some [''t''], width := Some [1]\<rparr>"

definition two_rows :: texttable where
  "two_rows = snd (add_row py_float_of_str [PyStr ''bbbbbb''] one_row_drawn)"

definition both_rows :: texttable where
  "both_rows = snd (add_row py_float_of_str [PyStr ''bbbbbb''] one_row)"

text \<open>
  The same with \<open>max_width = 10\<close> and a second row of 20 characters: one row, the table
  after its first \<^verbatim>\<open>draw\<close>, the second row added after that, and both rows added before
  any \<^verbatim>\<open>draw\<close>.
\<close>

definition narrow_row :: texttable where
  "narrow_row = snd (add_row py_float_of_str [PyStr ''a''] (init 10))"

definition narrow_row_drawn :: texttable where
  "narrow_row_drawn =
     narrow_row\<lparr>hline_string := Some (''+---+'' @ [NL]), align := Some [''l''],
       valign := Some [''t''], width := Some [1]\<rparr>"

definition narrow_late :: texttable where
  "narrow_late = snd (add_row py_float_of_str [PyStr ''bbbbbbbbbbbbbbbbbbbb''] narrow_row_drawn)"

definition narrow_early :: texttable where
  "narrow_early = snd (add_row py_float_of_str [PyStr ''bbbbbbbbbbbbbbbbbbbb''] narrow_row)"

text \<open>A red cell of two words in a table of \<open>max_width = 7\<close>, before and after \<^verbatim>\<open>draw\<close>.\<close>

definition red_cell :: string where
  "red_cell = ESC # ''[91maaa bbb'' @ ENDC"

definition red_table :: texttable where
  "red_table = snd (add_row py_float_of_str [PyStr red_cell] (init 7))"

definition red_table_drawn :: texttable where
  "red_table_drawn =
     red_table\<lparr>hline_string := Some (''+-----+'' @ [NL]), align := Some [''l''],
       valign := Some [''t''], width := Some [3]\<rparr>"

text \<open>The decoration and the border characters of a new table.\<close>

definition plain :: "texttable \<Rightarrow> bool" where
  "plain t \<longleftrightarrow> deco t = 15 \<and> char_horiz t = ''-'' \<and> char_vert t = ''|''
      \<and> char_corner t = ''+'' \<and> char_header t = ''=''"

section \<open>The source's loops and the redistribution\<close>

lemma reduce_fold:
  "n \<le> length ml \<Longrightarrow>
   fold (reduce_step ml) [0..<n] (replicate (length ml) b, f, ov) =
     (map (min b) (take n ml) @ replicate (length ml - n) b,
      f + (\<Sum>m\<leftarrow>take n ml. if m < b then b - m else 0),
      ov + int (length (filter (\<lambda>m. b < m) (take n ml))))"
proof (induction n)
  case 0
  then show ?case by simp
next
  case (Suc n)
  then have n: "n < length ml" by simp
  have rep: "replicate (length ml - n) b = b # replicate (length ml - Suc n) b"
    using n by (cases "length ml - n") auto
  have len: "length (map (min b) (take n ml)) = n" using n by simp
  show ?case
    using Suc.IH n
    by (simp add: take_Suc_conv_app_nth reduce_step_def rep nth_append list_update_append
        min_def Let_def)
qed

lemma distribute_fold:
  "n \<le> length ml \<Longrightarrow> length maxi = length ml \<Longrightarrow>
   fold (distribute_step ml part) [0..<n] (maxi, f, ov) =
     (map fst (spec_top_up part (zip (take n maxi) (take n ml))) @ drop n maxi,
      f - (spec_total (spec_top_up part (zip (take n maxi) (take n ml))) - sum_list (take n maxi)),
      ov - int (length (filter (\<lambda>(w, m). w < m \<and> m - w \<le> part) (zip (take n maxi) (take n ml)))))"
proof (induction n)
  case 0
  then show ?case by (simp add: spec_top_up_def spec_total_def)
next
  case (Suc n)
  then have n: "n < length ml" "n < length maxi" by simp_all
  have dr: "drop n maxi = maxi ! n # drop (Suc n) maxi"
    using n by (simp add: Cons_nth_drop_Suc)
  have len: "length (map fst (spec_top_up part (zip (take n maxi) (take n ml)))) = n"
    using n by (simp add: spec_top_up_def)
  show ?case
    using Suc.IH Suc.prems n len
    by (simp add: take_Suc_conv_app_nth distribute_step_def dr nth_append list_update_append
        spec_top_up_def spec_total_def Let_def)
qed

lemma spec_top_up_snd: "map snd (spec_top_up part cols) = map snd cols"
  by (induction cols) (auto simp: spec_top_up_def)

lemma spec_top_up_bounded:
  "\<forall>(w, m)\<in>set cols. w \<le> m \<Longrightarrow> \<forall>(w, m)\<in>set (spec_top_up part cols). w \<le> m"
  by (induction cols) (auto simp: spec_top_up_def split: if_splits)

lemma spec_top_up_oversized:
  "int (length (spec_oversized (spec_top_up part cols))) =
   int (length (spec_oversized cols))
     - int (length (filter (\<lambda>(w, m). w < m \<and> m - w \<le> part) cols))"
  by (induction cols) (auto simp: spec_top_up_def spec_oversized_def)

lemma bounded_need:
  "\<forall>(w, m)\<in>set cols. w \<le> m \<Longrightarrow> spec_total cols < sum_list (map snd cols) \<Longrightarrow>
   spec_oversized cols \<noteq> []"
proof (induction cols)
  case Nil
  then show ?case by (simp add: spec_total_def)
next
  case (Cons c cols)
  obtain w m where c: "c = (w, m)" by (cases c)
  show ?case
  proof (cases "w < m")
    case True
    then show ?thesis by (simp add: c spec_oversized_def)
  next
    case False
    with Cons.prems have "w = m" by (simp add: c)
    with Cons.prems have "spec_total cols < sum_list (map snd cols)"
      by (simp add: c spec_total_def)
    with Cons have "spec_oversized cols \<noteq> []" by simp
    then show ?thesis by (simp add: c spec_oversized_def)
  qed
qed

text \<open>The loop of the source follows the redistribution of the specification.\<close>

lemma distribute_refines:
  "\<forall>(w, m)\<in>set cols. w \<le> m \<Longrightarrow> spec_total cols + free < sum_list (map snd cols) \<Longrightarrow>
   \<exists>f ov. distribute (map snd cols) (map fst cols, free, int (length (spec_oversized cols)))
            = Some (Inr (map fst (spec_redistribute cols free), f, ov)) \<and> f \<le> 0"
proof (induction cols free rule: spec_redistribute.induct)
  case (1 cols free)
  show ?case
  proof (cases "0 < free")
    case False
    then show ?thesis
      by (subst distribute.simps, subst spec_redistribute.simps) simp
  next
    case True
    with "1.prems" have ne: "spec_oversized cols \<noteq> []"
      by (intro bounded_need) auto
    let ?k = "int (length (spec_oversized cols))"
    let ?part = "py_ceil_div free ?k"
    let ?cols = "spec_top_up ?part cols"
    let ?free = "free - (spec_total ?cols - spec_total cols)"
    have k: "?k \<noteq> 0" using ne by simp
    have zip: "zip (map fst cols) (map snd cols) = cols" by (simp add: zip_map_fst_snd)
    have pass: "fold (distribute_step (map snd cols) ?part) [0..<len (map snd cols)]
                  (map fst cols, free, ?k)
                = (map fst ?cols, ?free, int (length (spec_oversized ?cols)))"
      using distribute_fold [of "length cols" "map snd cols" "map fst cols" ?part free ?k]
      by (simp add: len_def zip spec_top_up_oversized spec_total_def)
    have b: "\<forall>(w, m)\<in>set ?cols. w \<le> m" using "1.prems"(1) by (rule spec_top_up_bounded)
    have need: "spec_total ?cols + ?free < sum_list (map snd ?cols)"
      using "1.prems"(2) by (simp add: spec_top_up_snd)
    from "1.IH" [OF _ b need] True ne
    obtain f ov where
      "distribute (map snd ?cols) (map fst ?cols, ?free, int (length (spec_oversized ?cols)))
         = Some (Inr (map fst (spec_redistribute ?cols ?free), f, ov))" and f: "f \<le> 0"
      by auto
    then have "distribute (map snd cols) (map fst cols, free, ?k)
         = Some (Inr (map fst (spec_redistribute cols free), f, ov))"
      using True ne k pass
      by (subst distribute.simps, subst spec_redistribute.simps) (simp add: spec_top_up_snd)
    with f show ?thesis by blast
  qed
qed

lemma spec_start_total:
  "(\<Sum>m\<leftarrow>ws. min b m) + (\<Sum>m\<leftarrow>ws. if m < b then b - m else 0) = int (length ws) * b"
  by (induction ws) (auto simp: algebra_simps min_def)

lemma budget_le:
  assumes "0 < n"
  shows "n * (x div n) \<le> (x::int)"
proof -
  have "n * (x div n) = x - x mod n" by (simp add: minus_mod_eq_mult_div)
  moreover have "0 \<le> x mod n" using assms by simp
  ultimately show ?thesis by simp
qed

lemma shrink_returns:
  assumes ne: "ws \<noteq> []" and big: "mw < sum_list ws + int (length ws) * 3 + 1"
  shows "\<exists>f ov. shrink mw ws = Some (Inr (spec_widths mw ws, f, ov)) \<and> f \<le> 0"
proof -
  let ?b = "spec_budget mw ws"
  let ?cols = "spec_start mw ws"
  have b: "(mw - int (len ws) * 3 - 1) div int (len ws) = ?b"
    by (simp add: spec_budget_def len_def mult.commute)
  have fs: "map fst ?cols = map (min ?b) ws" by (simp add: spec_start_def comp_def)
  have sn: "map snd ?cols = ws" by (simp add: spec_start_def comp_def)
  have "(\<lambda>m. min ?b m < m) = (\<lambda>m. ?b < m)" by (auto simp: min_def)
  then have ov: "length (spec_oversized ?cols) = length (filter (\<lambda>m. ?b < m) ws)"
    by (simp add: spec_start_def spec_oversized_def filter_map comp_def)
  have start: "fold (reduce_step ws) [0..<len ws] (replicate (len ws) ?b, 0, 0)
                = (map fst ?cols, spec_slack mw ws, int (length (spec_oversized ?cols)))"
    using reduce_fold [of "length ws" ws ?b 0 0]
    by (simp add: len_def fs ov spec_slack_def)
  have bounded: "\<forall>(w, m)\<in>set ?cols. w \<le> m" by (auto simp: spec_start_def)
  have "spec_total ?cols + spec_slack mw ws = int (length ws) * ?b"
    using spec_start_total [of ?b ws] by (simp add: spec_total_def fs spec_slack_def)
  also have "\<dots> \<le> mw - 3 * int (length ws) - 1"
    unfolding spec_budget_def using ne by (intro budget_le) simp
  also have "\<dots> < sum_list ws" using big by simp
  finally have need: "spec_total ?cols + spec_slack mw ws < sum_list (map snd ?cols)"
    by (simp add: sn)
  from distribute_refines [OF bounded need]
  show ?thesis by (simp add: shrink_def Let_def b start sn spec_widths_def)
qed

lemma fit_widths_shrinks:
  assumes "0 < mw" and "mw < sum_list ws + int (length ws) * 3 + 1"
  shows "fit_widths mw ws = Some (Inr (spec_widths mw ws))"
proof -
  from assms have ne: "ws \<noteq> []" by auto
  from shrink_returns [OF ne assms(2)] obtain f ov
    where "shrink mw ws = Some (Inr (spec_widths mw ws, f, ov))" by blast
  with assms ne show ?thesis by (simp add: fit_widths_def len_def)
qed

lemma wide_header_natural: "natural_widths wide_header = [20, 20, 20]"
  by (simp add: wide_header_def header_m_def check_row_size_def init_def natural_widths_def
      len_cell_def len_line_def len_def ESC_def NL_def TAB_def upt_rec)

lemma spec_widths_example: "spec_widths 30 [20, 20, 20] = [6, 6, 6]"
  by (simp add: spec_widths_def spec_redistribute.simps spec_start_def spec_slack_def
      spec_budget_def spec_oversized_def)

text \<open>
  A table in which \<^verbatim>\<open>_width\<close> does not exist yet, with \<open>max_width\<close> enabled and natural
  widths that do not fit (\<open>sum + 3 * N + 1 > max_width\<close>): \<^verbatim>\<open>_compute_cols_width\<close> returns,
  raises nothing, and stores exactly the widths of the iterative redistribution of the
  specification: the equal budget, the slack of the narrow columns, passes of
  \<open>ceil(free / oversized_count)\<close>. For natural widths \<open>[20, 20, 20]\<close> and \<open>max_width = 30\<close>
  the widths sum to at most \<open>max_width - 3 * 3 - 1\<close>.
\<close>

lemma first_render_redistributes:
  assumes "width t = None" and "0 < max_width t"
    and "max_width t < sum_list (natural_widths t) + 3 * int (length (natural_widths t)) + 1"
  shows "compute_cols_width t
           = Some (Inr (t\<lparr>width := Some (spec_widths (max_width t) (natural_widths t))\<rparr>))
         \<and> (natural_widths t = [20, 20, 20] \<and> max_width t = 30 \<longrightarrow>
              sum_list (spec_widths (max_width t) (natural_widths t)) \<le> max_width t - 3 * 3 - 1)"
proof -
  have "fit_widths (max_width t) (natural_widths t)
          = Some (Inr (spec_widths (max_width t) (natural_widths t)))"
    using assms(2,3) by (intro fit_widths_shrinks) (simp_all add: mult.commute)
  with assms(1) show ?thesis
    by (simp add: compute_cols_width_def spec_widths_example)
qed

lemma wide_header_redistributes:
  "width wide_header = None \<and> 0 < max_width wide_header
   \<and> max_width wide_header
       < sum_list (natural_widths wide_header) + 3 * int (length (natural_widths wide_header)) + 1
   \<and> compute_cols_width wide_header = Some (Inr (wide_header\<lparr>width := Some [6, 6, 6]\<rparr>))
   \<and> sum_list [6, 6, 6] \<le> (30::int) - 3 * 3 - 1"
proof -
  have w: "width wide_header = None" and m: "max_width wide_header = 30"
    by (simp_all add: wide_header_def header_m_def check_row_size_def init_def)
  have h: "max_width wide_header
       < sum_list (natural_widths wide_header) + 3 * int (length (natural_widths wide_header)) + 1"
    by (simp add: m wide_header_natural)
  from first_render_redistributes [OF w _ h] w m h show ?thesis
    by (simp add: wide_header_natural spec_widths_example)
qed

text \<open>
  Claim C10. The loop does return and never divides by zero (\<open>shrink_returns\<close>), but it
  is left with \<open>free \<le> 0\<close>, not with \<open>free = 0\<close>: a pass hands \<open>ceil(free / oversized)\<close> to
  every oversized column, which can be more than what is free. For natural widths
  \<open>[1, 20, 20]\<close> and \<open>max_width = 28\<close> the loop ends with \<open>free = -1\<close> and the table is
  29 characters wide.
\<close>

theorem shrink_overshoots:
  "shrink 28 [1, 20, 20] = Some (Inr ([1, 9, 9], - 1, 2))
   \<and> fit_widths 28 [1, 20, 20] = Some (Inr [1, 9, 9])
   \<and> 28 < sum_list [1, 9, 9] + 3 * 3 + (1::int)"
  by (simp add: fit_widths_def shrink_def distribute.simps reduce_step_def distribute_step_def
      py_ceil_div_def len_def upt_rec)

section \<open>Cell normalization\<close>

lemma py_round_of_int: "py_round (of_int n) = n"
  by (simp add: py_round_def)

lemma integral_iff: "\<bar>q\<bar> - of_int (py_round \<bar>q\<bar>) = 0 \<longleftrightarrow> q \<in> \<int>"
proof
  assume "\<bar>q\<bar> - of_int (py_round \<bar>q\<bar>) = 0"
  then have "\<bar>q\<bar> = of_int (py_round \<bar>q\<bar>)" by simp
  then have "\<bar>q\<bar> \<in> \<int>" by (metis Ints_of_int)
  moreover have "q = \<bar>q\<bar> \<or> q = - \<bar>q\<bar>" by auto
  ultimately show "q \<in> \<int>" by (metis Ints_minus)
next
  assume "q \<in> \<int>"
  then obtain n where "q = of_int n" by (auto elim: Ints_cases)
  then have "\<bar>q\<bar> = of_int \<bar>n\<bar>" by simp
  then show "\<bar>q\<bar> - of_int (py_round \<bar>q\<bar>) = 0" by (simp only: py_round_of_int)
qed

lemma signed_round_integral:
  assumes "q \<in> \<int>"
  shows "(if q < 0 then - py_round \<bar>q\<bar> else py_round \<bar>q\<bar>) = \<lfloor>q\<rfloor>"
proof -
  from assms obtain n where q: "q = of_int n" by (auto elim: Ints_cases)
  then have a: "\<bar>q\<bar> = of_int \<bar>n\<bar>" by simp
  show ?thesis unfolding a py_round_of_int by (simp add: q)
qed

subsection \<open>Decimal digits\<close>

lemma digit_char: "d < 10 \<Longrightarrow> is_digit (''0123456789'' ! d) \<and> digit_val (''0123456789'' ! d) = d"
proof -
  assume "d < 10"
  then have "d \<in> {0, 1, 2, 3, 4, 5, 6, 7, 8, 9}" by auto
  then show ?thesis by (auto simp: is_digit_def digit_val_def)
qed

lemma str_nat_digits: "\<forall>c\<in>set (str_nat n). is_digit c"
proof (induction n rule: str_nat.induct)
  case (1 n)
  show ?case
  proof (cases "n < 10")
    case True
    then show ?thesis by (subst str_nat.simps) (simp add: digit_char)
  next
    case False
    with 1 show ?thesis by (subst str_nat.simps) (simp add: digit_char)
  qed
qed

lemma str_nat_not_empty: "str_nat n \<noteq> []"
  by (subst str_nat.simps) simp

lemma digits_val_append:
  "digits_val (xs @ [c]) = (if is_digit c then 10 * digits_val xs + digit_val c else digits_val xs)"
  by (simp add: digits_val_def)

lemma digits_val_str_nat: "digits_val (str_nat n) = n"
proof (induction n rule: str_nat.induct)
  case (1 n)
  show ?case
  proof (cases "n < 10")
    case True
    then show ?thesis by (subst str_nat.simps) (simp add: digits_val_def digit_char)
  next
    case False
    with 1 show ?thesis
      by (subst str_nat.simps) (simp add: digits_val_append digit_char)
  qed
qed

lemma digits_val_zeros: "digits_val (replicate m CHR ''0'' @ s) = digits_val s"
  by (induction m) (simp_all add: digits_val_def is_digit_def digit_val_def)

lemma py_round_nonneg: "0 \<le> a \<Longrightarrow> 0 \<le> py_round a"
  by (simp add: py_round_def Let_def)

text \<open>
  The fixed-point form of a magnitude: digits, a point and \<open>n\<close> digits, which together
  are the decimal digits of the magnitude times \<open>10^n\<close>, rounded.
\<close>

lemma fmt_f_unfold:
  assumes "0 < n"
  shows "fmt_f n neg a =
     (let ds = replicate (Suc n - length (str_nat (nat (py_round (a * 10 ^ n))))) CHR ''0''
               @ str_nat (nat (py_round (a * 10 ^ n)))
      in (if neg then ''-'' else []) @ take (length ds - n) ds @ CHR ''.'' # drop (length ds - n) ds)"
proof -
  from assms have "n \<noteq> 0" by simp
  then show ?thesis unfolding fmt_f_def by (simp only: Let_def if_False)
qed

lemma fmt_f_shape:
  assumes "0 < n" and "0 \<le> a"
  shows "\<exists>ip fp. fmt_f n neg a = (if neg then ''-'' else []) @ ip @ CHR ''.'' # fp
                   \<and> ip \<noteq> [] \<and> length fp = n
                   \<and> (\<forall>c\<in>set (ip @ fp). is_digit c)
                   \<and> int (digits_val (ip @ fp)) = py_round (a * 10 ^ n)"
proof -
  define r where "r = nat (py_round (a * 10 ^ n))"
  define ds where "ds = replicate (Suc n - length (str_nat r)) CHR ''0'' @ str_nat r"
  define k where "k = length ds - n"
  have len: "Suc n \<le> length ds" unfolding ds_def by simp
  then have k: "0 < k" "k \<le> length ds" "length ds - k = n" unfolding k_def by simp_all
  have "0 \<le> py_round (a * 10 ^ n)" using assms(2) by (intro py_round_nonneg) simp
  then have r: "int r = py_round (a * 10 ^ n)" unfolding r_def by simp
  have f: "fmt_f n neg a = (if neg then ''-'' else []) @ take k ds @ CHR ''.'' # drop k ds"
    unfolding k_def ds_def r_def using fmt_f_unfold [OF assms(1), of neg a]
    by (simp only: Let_def)
  from k(1) len have t: "take k ds \<noteq> []" by (cases ds; cases k) simp_all
  have d: "length (drop k ds) = n" using k by simp
  have z: "is_digit CHR ''0''" by (simp add: is_digit_def)
  have "\<forall>c\<in>set ds. is_digit c"
    unfolding ds_def using str_nat_digits [of r] z by auto
  then have c: "\<forall>c\<in>set (take k ds @ drop k ds). is_digit c"
    by (simp only: append_take_drop_id)
  have "digits_val ds = r"
    unfolding ds_def by (simp only: digits_val_zeros digits_val_str_nat)
  with r have v: "int (digits_val (take k ds @ drop k ds)) = py_round (a * 10 ^ n)"
    by (simp only: append_take_drop_id)
  from f t d c v show ?thesis by blast
qed


lemma digit_not_sign: "is_digit c \<Longrightarrow> c \<noteq> CHR ''-'' \<and> c \<noteq> CHR ''+'' \<and> c \<noteq> CHR ''_'' \<and> \<not> is_space c"
  by (auto simp: is_digit_def is_space_def)

lemma digitpart_ok_digits: "s \<noteq> [] \<Longrightarrow> \<forall>c\<in>set s. is_digit c \<Longrightarrow> digitpart_ok s"
  by (induction s rule: digitpart_ok.induct) (auto dest: digit_not_sign)

lemma strip_digits:
  assumes "s \<noteq> []" and "\<not> is_space (hd s)" and "\<not> is_space (last s)"
  shows "strip s = s"
proof -
  from assms have "dropWhile is_space s = s" by (cases s) auto
  moreover from assms have "dropWhile is_space (rev s) = rev s"
    by (cases "rev s") (auto simp: hd_rev)
  ultimately show ?thesis by (simp add: strip_def)
qed

text \<open>The decimal text of an integer is read back by the model of \<^verbatim>\<open>int\<close>.\<close>

lemma py_int_of_str_str_int: "py_int_of_str (str_int i) = Some i"
proof -
  define s where "s = str_nat (nat \<bar>i\<bar>)"
  have ne: "s \<noteq> []" unfolding s_def by (rule str_nat_not_empty)
  have dig: "\<forall>c\<in>set s. is_digit c" unfolding s_def by (rule str_nat_digits)
  from ne dig have h: "is_digit (hd s)" and l: "is_digit (last s)" by simp_all
  have ok: "digitpart_ok s" using ne dig by (rule digitpart_ok_digits)
  have v: "int (digits_val s) = \<bar>i\<bar>" unfolding s_def by (simp add: digits_val_str_nat)
  show ?thesis
  proof (cases "i < 0")
    case True
    then have "nat (- i) = nat \<bar>i\<bar>" by simp
    with True have e: "str_int i = CHR ''-'' # s" by (simp add: str_int_def s_def)
    have "strip (CHR ''-'' # s) = CHR ''-'' # s"
      using ne l by (intro strip_digits) (auto simp: is_space_def dest: digit_not_sign)
    with True ok v show ?thesis
      by (simp add: py_int_of_str_def e split_sign_def)
  next
    case False
    then have "nat i = nat \<bar>i\<bar>" by simp
    with False have e: "str_int i = s" by (simp add: str_int_def s_def)
    have st: "strip s = s"
      using ne h l by (intro strip_digits) (auto dest: digit_not_sign)
    from ne h have "split_sign s = (False, s)"
      by (cases s) (auto simp: split_sign_def dest: digit_not_sign)
    with False ok v show ?thesis
      by (simp add: py_int_of_str_def e st)
  qed
qed

subsection \<open>The dtype \<open>auto\<close>\<close>

text \<open>
  Claim C3. A cell of a column of dtype \<open>auto\<close> whose value \<^verbatim>\<open>float\<close> converts to a finite
  number \<open>q\<close>: an integral \<open>q\<close> of magnitude at most \<open>1e8\<close> becomes its integer decimal
  form, a non-integral one of that magnitude the fixed-point form with \<open>precision\<close>
  digits, and any \<open>q\<close> of larger magnitude the exponential form with \<open>precision\<close> digits.
\<close>

theorem str_auto:
  assumes "py_float fl x = Inr (Finite q)"
    and "dtype t = Some ds" and "i < length ds" and "ds ! i = ''a''"
  shows "str fl t i x =
           Inr (if q \<in> \<int>
                then (if \<bar>q\<bar> \<le> 10 ^ 8 then str_int \<lfloor>q\<rfloor>
                      else fmt_e (precision t) (q < 0) \<bar>q\<bar>)
                else (if \<bar>q\<bar> \<le> 10 ^ 8 then fmt_f (precision t) (q < 0) \<bar>q\<bar>
                      else fmt_e (precision t) (q < 0) \<bar>q\<bar>))"
proof (cases "q \<in> \<int>")
  case True
  then have "\<bar>q\<bar> - of_int (py_round \<bar>q\<bar>) = 0" by (simp only: integral_iff)
  with True assms signed_round_integral [OF True] show ?thesis
    by (simp add: str_def format_number_def len_def Let_def not_le)
next
  case False
  then have "\<bar>q\<bar> - of_int (py_round \<bar>q\<bar>) \<noteq> 0" by (simp only: integral_iff) simp
  with False assms show ?thesis
    by (simp add: str_def format_number_def len_def Let_def not_le)
qed

lemma str_nat_numeral:
  "str_nat (numeral k) =
     (if numeral k < (10::nat) then [''0123456789'' ! numeral k]
      else str_nat (numeral k div 10) @ [''0123456789'' ! (numeral k mod 10)])"
  by (rule str_nat.simps)

lemma str_nat_small: "str_nat 0 = ''0''" "str_nat 1 = ''1''" "str_nat (Suc 0) = ''1''"
  by (simp_all add: str_nat.simps)

lemmas str_nat_eval = str_nat_numeral str_nat_small

lemma bit_len_numeral:
  "bit_len (numeral k) = (if numeral k = (0::nat) then 0 else Suc (bit_len (numeral k div 2)))"
  by (rule bit_len.simps)

lemma bit_len_small: "bit_len 0 = 0" "bit_len 1 = 1" "bit_len (Suc 0) = 1"
  by (simp_all add: bit_len.simps)

lemmas bit_len_eval = bit_len_numeral bit_len_small

lemma fmt_examples:
  "str_int 5 = ''5''" "fmt_f 3 False (21 / 4) = ''5.250''"
  "fmt_e 3 False 1000000000 = ''1.000e+09''"
  by (simp_all add: str_int_def fmt_f_def fmt_e_def exp10_def pow10_def py_round_def
      str_nat_eval Let_def)

lemma float_of_five: "py_float fl (PyInt 5) = Inr (Finite 5)"
  by (simp add: py_float_def round_binary64_def exp2_def pow2_def py_round_def bit_len_eval Let_def)

lemma float_of_small_int: "py_float fl (PyInt 1000000000) = Inr (Finite 1000000000)"
  by (simp add: py_float_def round_binary64_def exp2_def pow2_def py_round_def bit_len_eval Let_def)

lemma not_integral_example: "(21 / 4 :: rat) \<notin> \<int>"
  using integral_iff [of "21 / 4"] by (simp add: py_round_def)

theorem str_auto_witness:
  "py_float py_float_of_str (PyInt 5) = Inr (Finite 5)
   \<and> py_float py_float_of_str (PyFloat (Finite (21 / 4))) = Inr (Finite (21 / 4))
   \<and> py_float py_float_of_str (PyInt 1000000000) = Inr (Finite 1000000000)
   \<and> dtype auto_table = Some [''a'', ''a'', ''a''] \<and> precision auto_table = 3
   \<and> str py_float_of_str auto_table 0 (PyInt 5) = Inr ''5''
   \<and> str py_float_of_str auto_table 1 (PyFloat (Finite (21 / 4))) = Inr ''5.250''
   \<and> str py_float_of_str auto_table 2 (PyInt 1000000000) = Inr ''1.000e+09''"
proof -
  let ?fl = py_float_of_str
  have d: "dtype auto_table = Some [''a'', ''a'', ''a'']" and p: "precision auto_table = 3"
    by (simp_all add: auto_table_def init_def)
  have f2: "py_float ?fl (PyFloat (Finite (21 / 4))) = Inr (Finite (21 / 4))"
    by (simp add: py_float_def)
  have "str ?fl auto_table 0 (PyInt 5) = Inr ''5''"
    using str_auto [OF float_of_five d, of 0] by (simp add: fmt_examples)
  moreover have "str ?fl auto_table 1 (PyFloat (Finite (21 / 4))) = Inr ''5.250''"
    using str_auto [OF f2 d, of 1] by (simp add: fmt_examples not_integral_example p)
  moreover have "str ?fl auto_table 2 (PyInt 1000000000) = Inr ''1.000e+09''"
    using str_auto [OF float_of_small_int d, of 2] by (simp add: fmt_examples p)
  ultimately show ?thesis using float_of_five float_of_small_int f2 d p by simp
qed

text \<open>
  The fixed-point form of a cell: a sign, digits, a point and \<open>precision\<close> digits; read as
  one number the digits are the magnitude times \<open>10^precision\<close>, rounded.
\<close>

lemma str_auto_fixed_point:
  assumes "py_float fl x = Inr (Finite q)"
    and "dtype t = Some ds" and "i < length ds" and "ds ! i = ''a''"
    and "q \<notin> \<int>" and "\<bar>q\<bar> \<le> 10 ^ 8" and "0 < precision t"
  shows "\<exists>ip fp. str fl t i x = Inr ((if q < 0 then ''-'' else []) @ ip @ CHR ''.'' # fp)
                   \<and> ip \<noteq> [] \<and> length fp = precision t
                   \<and> (\<forall>c\<in>set (ip @ fp). is_digit c)
                   \<and> int (digits_val (ip @ fp)) = py_round (\<bar>q\<bar> * 10 ^ precision t)"
proof -
  from assms(5) have "\<bar>q\<bar> - of_int (py_round \<bar>q\<bar>) \<noteq> 0"
    by (simp only: integral_iff) simp
  with assms(1-4,6) have "str fl t i x = Inr (fmt_f (precision t) (q < 0) \<bar>q\<bar>)"
    by (simp add: str_def format_number_def len_def Let_def not_le)
  with fmt_f_shape [OF assms(7), of "\<bar>q\<bar>" "q < 0"] show ?thesis by auto
qed

lemma str_text_fallback: "fl s = None \<Longrightarrow> str fl t i (PyStr s) = Inr s"
  by (simp add: str_def py_float_def text_form_def)

text \<open>
  Claim C4. A float \<^verbatim>\<open>nan\<close>, \<^verbatim>\<open>inf\<close> or \<^verbatim>\<open>-inf\<close> is rejected by the \<^verbatim>\<open>try\<close> block, and the
  handler then calls \<^verbatim>\<open>x.encode("utf-8")\<close> on the float, which raises: the cell is not
  emitted as text, and \<^verbatim>\<open>add_row\<close> fails. Text and \<^verbatim>\<open>None\<close> do come out as text.
\<close>

theorem str_nan_raises:
  "str fl t i (PyFloat NaN) = Inl AttributeError
   \<and> str fl t i (PyFloat PosInf) = Inl AttributeError
   \<and> str fl t i (PyFloat NegInf) = Inl AttributeError
   \<and> fst (add_row fl [PyFloat NaN] (init 80)) = Inl AttributeError
   \<and> str fl t i PyNone = Inr ''None''"
  by (simp add: str_def py_float_def text_form_def add_row_def check_row_size_def init_def
      len_def)

section \<open>Setters and the column count\<close>

lemma check_row_size_error:
  "check_row_size array t = Inl e \<Longrightarrow>
   \<exists>n. row_size t = Some n \<and> 0 < n \<and> n \<noteq> length array
       \<and> e = ArraySizeError (''array should contain '' @ str_nat n @ '' elements'')"
  by (auto simp: check_row_size_def len_def split: option.splits if_splits)

lemma check_row_size_ok:
  "check_row_size array t = Inr t1 \<Longrightarrow> t1 = t\<lparr>row_size := Some (length array)\<rparr>"
  by (auto simp: check_row_size_def len_def split: option.splits if_splits)

lemma check_row_size_fixed:
  "row_size t = Some n \<Longrightarrow> 0 < n \<Longrightarrow>
   check_row_size array t =
     (if n \<noteq> length array
      then Inl (ArraySizeError (''array should contain '' @ str_nat n @ '' elements''))
      else Inr t)"
  by (simp add: check_row_size_def len_def)

lemma try_map_py_int_error: "try_map (py_int il) array = Inl e \<Longrightarrow> \<forall>m. e \<noteq> ArraySizeError m"
  by (induction array) (auto simp: py_int_def split: sum.splits pyval.splits option.splits pyfloat.splits)

lemma str_error: "str fl t i x = Inl e \<Longrightarrow> \<forall>m. e \<noteq> ArraySizeError m"
  by (auto simp: str_def format_number_def text_form_def Let_def
      split: sum.splits pyval.splits option.splits pyfloat.splits if_splits)

lemma try_map_str_error:
  "try_map (\<lambda>(i, x). str fl t i x) ixs = Inl e \<Longrightarrow> \<forall>m. e \<noteq> ArraySizeError m"
  by (induction ixs) (auto split: sum.splits dest: str_error)

lemma set_cols_width_failed:
  assumes "set_cols_width il array t = (Inl e, t')"
  shows "(\<exists>m. e = ArraySizeError m) \<and> t' = t
         \<or> (\<forall>m. e \<noteq> ArraySizeError m) \<and> t' = t\<lparr>row_size := Some (length array)\<rparr>"
proof (cases "check_row_size array t")
  case (Inl e0)
  with assms check_row_size_error [OF Inl] show ?thesis by (auto simp: set_cols_width_def)
next
  case (Inr t1)
  then have t1: "t1 = t\<lparr>row_size := Some (length array)\<rparr>" by (rule check_row_size_ok)
  from assms Inr show ?thesis
    by (auto simp: set_cols_width_def t1 split: sum.splits list.splits if_splits
        dest: try_map_py_int_error)
qed

lemma add_row_failed:
  assumes "add_row fl array t = (Inl e, t')"
  shows "(\<exists>m. e = ArraySizeError m) \<and> t' = t
         \<or> (\<forall>m. e \<noteq> ArraySizeError m)
            \<and> t' = t\<lparr>row_size := Some (length array),
                     dtype := Some (case dtype t of None \<Rightarrow> replicate (length array) ''a'' | Some d \<Rightarrow> d)\<rparr>"
proof (cases "check_row_size array t")
  case (Inl e0)
  with assms check_row_size_error [OF Inl] show ?thesis by (auto simp: add_row_def)
next
  case (Inr t1)
  then have t1: "t1 = t\<lparr>row_size := Some (length array)\<rparr>" by (rule check_row_size_ok)
  from assms Inr show ?thesis
    by (auto simp: add_row_def t1 split: sum.splits option.splits dest: try_map_str_error)
qed

lemma fold_min_le: "fold min ws (w::int) \<le> c \<longleftrightarrow> (\<exists>x\<in>set (w # ws). x \<le> c)"
  by (induction ws arbitrary: w) (auto simp: min_le_iff_disj)

lemma fold_min_pos: "0 < fold min ws (w::int) \<longleftrightarrow> (\<forall>x\<in>set (w # ws). 0 < x)"
  by (induction ws arbitrary: w) auto

lemma try_map_py_int_ints: "try_map (py_int il) (map PyInt ns) = Inr ns"
  by (induction ns) (auto simp: py_int_def)

text \<open>
  Claim C5 as stated fails: \<^verbatim>\<open>set_cols_width([0])\<close> on a new table raises \<^verbatim>\<open>ValueError\<close>
  after \<^verbatim>\<open>_check_row_size\<close> has fixed the column count to 1.
\<close>

theorem failed_set_cols_width_fixes_count:
  "fst (set_cols_width py_int_of_str [PyInt 0] (init 80)) = Inl ValueError
   \<and> row_size (init 80) = None
   \<and> row_size (snd (set_cols_width py_int_of_str [PyInt 0] (init 80))) = Some 1
   \<and> snd (set_cols_width py_int_of_str [PyInt 0] (init 80)) \<noteq> init 80"
proof -
  have "set_cols_width py_int_of_str [PyInt 0] (init 80)
          = (Inl ValueError, (init 80)\<lparr>row_size := Some 1\<rparr>)"
    by (simp add: set_cols_width_def check_row_size_def init_def len_def py_int_def)
  moreover have "row_size (init 80) = None" by (simp add: init_def)
  moreover have "row_size ((init 80)\<lparr>row_size := Some 1\<rparr>) \<noteq> row_size (init 80)"
    by (simp add: init_def)
  then have "(init 80)\<lparr>row_size := Some 1\<rparr> \<noteq> init 80" by metis
  ultimately show ?thesis by simp
qed

text \<open>
  Claim C5 as amended. A setter call that fails with a sizing error leaves the table as
  it was, and so does a failing \<^verbatim>\<open>set_precision\<close> or \<^verbatim>\<open>set_chars\<close>; all of \<^verbatim>\<open>set_cols_align\<close>,
  \<^verbatim>\<open>set_cols_valign\<close>, \<^verbatim>\<open>set_cols_dtype\<close> and \<^verbatim>\<open>header\<close> fail with a sizing error only. A
  \<^verbatim>\<open>set_cols_width\<close> or \<^verbatim>\<open>add_row\<close> call that fails with another error leaves every field
  as it was but the column count, fixed to the length of the array, and for \<^verbatim>\<open>add_row\<close>
  the dtypes, set to their default when they were unset.
\<close>

theorem failed_setter_state:
  "(set_chars cs t = (Inl e, t') \<longrightarrow> t' = t)
   \<and> (set_precision p t = (Inl e, t') \<longrightarrow> t' = t)
   \<and> (set_cols_align a t = (Inl e, t') \<longrightarrow> t' = t)
   \<and> (set_cols_valign a t = (Inl e, t') \<longrightarrow> t' = t)
   \<and> (set_cols_dtype a t = (Inl e, t') \<longrightarrow> t' = t)
   \<and> (header_m a t = (Inl e, t') \<longrightarrow> t' = t)
   \<and> (set_cols_width il ws t = (Inl e, t') \<longrightarrow>
        (\<exists>m. e = ArraySizeError m) \<and> t' = t
        \<or> (\<forall>m. e \<noteq> ArraySizeError m) \<and> t' = t\<lparr>row_size := Some (length ws)\<rparr>)
   \<and> (add_row fl r t = (Inl e, t') \<longrightarrow>
        (\<exists>m. e = ArraySizeError m) \<and> t' = t
        \<or> (\<forall>m. e \<noteq> ArraySizeError m)
           \<and> t' = t\<lparr>row_size := Some (length r),
                    dtype := Some (case dtype t of None \<Rightarrow> replicate (length r) ''a''
                                   | Some d \<Rightarrow> d)\<rparr>)"
proof -
  have "set_chars cs t = (Inl e, t') \<longrightarrow> t' = t"
    by (auto simp: set_chars_def Let_def split: if_splits)
  moreover have "set_precision p t = (Inl e, t') \<longrightarrow> t' = t"
    by (auto simp: set_precision_def split: pyval.splits if_splits)
  moreover have "set_cols_align a t = (Inl e, t') \<longrightarrow> t' = t"
    by (auto simp: set_cols_align_def split: sum.splits)
  moreover have "set_cols_valign a t = (Inl e, t') \<longrightarrow> t' = t"
    by (auto simp: set_cols_valign_def split: sum.splits)
  moreover have "set_cols_dtype a t = (Inl e, t') \<longrightarrow> t' = t"
    by (auto simp: set_cols_dtype_def split: sum.splits)
  moreover have "header_m a t = (Inl e, t') \<longrightarrow> t' = t"
    by (auto simp: header_m_def split: sum.splits)
  ultimately show ?thesis
    using set_cols_width_failed [of il ws t e t'] add_row_failed [of fl r t e t'] by blast
qed

lemma two_cols_eq: "two_cols = (init 80)\<lparr>row_size := Some 2, header := [''a'', ''b'']\<rparr>"
  by (simp add: two_cols_def header_m_def check_row_size_def init_def len_def)

lemma two_cols_size: "row_size two_cols = Some 2"
  by (simp add: two_cols_eq)

lemma str_nat_two: "str_nat 2 = ''2''"
  by (simp add: str_nat_eval)

theorem failed_setter_state_witness:
  "set_precision (PyInt (- 1)) two_cols = (Inl ValueError, two_cols)
   \<and> set_cols_align [''l''] two_cols
       = (Inl (ArraySizeError ''array should contain 2 elements''), two_cols)
   \<and> set_cols_width py_int_of_str [PyInt 0] (init 80)
       = (Inl ValueError, (init 80)\<lparr>row_size := Some (length [PyInt 0])\<rparr>)"
proof -
  have p: "fst (set_precision (PyInt (- 1)) two_cols) = Inl ValueError"
    by (simp add: set_precision_def)
  have a: "fst (set_cols_align [''l''] two_cols)
             = Inl (ArraySizeError ''array should contain 2 elements'')"
    by (simp add: set_cols_align_def check_row_size_def two_cols_size len_def str_nat_two)
  have w: "fst (set_cols_width py_int_of_str [PyInt 0] (init 80)) = Inl ValueError"
    by (simp add: set_cols_width_def check_row_size_def init_def len_def py_int_def)
  from p failed_setter_state
         [of _ two_cols ValueError "snd (set_precision (PyInt (- 1)) two_cols)" "PyInt (- 1)"]
  have "set_precision (PyInt (- 1)) two_cols = (Inl ValueError, two_cols)"
    by (metis prod.collapse)
  moreover from a failed_setter_state
         [of _ two_cols "ArraySizeError ''array should contain 2 elements''"
             "snd (set_cols_align [''l''] two_cols)" _ "[''l'']"]
  have "set_cols_align [''l''] two_cols
          = (Inl (ArraySizeError ''array should contain 2 elements''), two_cols)"
    by (metis prod.collapse)
  moreover from w failed_setter_state
         [of _ "init 80" ValueError "snd (set_cols_width py_int_of_str [PyInt 0] (init 80))"
             _ _ py_int_of_str "[PyInt 0]"]
  have "set_cols_width py_int_of_str [PyInt 0] (init 80)
          = (Inl ValueError, (init 80)\<lparr>row_size := Some (length [PyInt 0])\<rparr>)"
    by (metis prod.collapse error.distinct(1))
  ultimately show ?thesis by simp
qed

text \<open>
  Claim C7 as stated fails for a column count of zero: \<^verbatim>\<open>header([])\<close> sets \<^verbatim>\<open>_row_size\<close> to
  \<open>0\<close>, which \<^verbatim>\<open>not self._row_size\<close> takes for unset, and the next array of any length is
  accepted and fixes the count anew.
\<close>

theorem zero_count_is_not_fixed:
  "row_size (snd (header_m [] (init 80))) = Some 0
   \<and> header_m [''a''] (snd (header_m [] (init 80)))
       = (Inr (), (init 80)\<lparr>row_size := Some 1, header := [''a'']\<rparr>)"
  by (simp add: header_m_def check_row_size_def init_def len_def)

text \<open>
  Claim C7 as amended. On a table whose column count is fixed to \<open>n \<ge> 1\<close>, every call
  of \<^verbatim>\<open>add_row\<close>, \<^verbatim>\<open>header\<close>, \<^verbatim>\<open>set_cols_align\<close>, \<^verbatim>\<open>set_cols_valign\<close>, \<^verbatim>\<open>set_cols_dtype\<close> and
  \<^verbatim>\<open>set_cols_width\<close> with an array of another length fails with the sizing error whose
  message names \<open>n\<close>, the table unchanged, and no call with an array of length \<open>n\<close> fails
  with a sizing error.
\<close>

theorem fixed_count_enforced:
  assumes "row_size t = Some n" and "0 < n"
  shows "(length a \<noteq> n \<longrightarrow>
            (let r = (Inl (ArraySizeError (''array should contain '' @ str_nat n @ '' elements'')), t)
             in set_cols_align a t = r \<and> set_cols_valign a t = r \<and> set_cols_dtype a t = r
                \<and> header_m a t = r))
         \<and> (length ws \<noteq> n \<longrightarrow>
              set_cols_width il ws t
                = (Inl (ArraySizeError (''array should contain '' @ str_nat n @ '' elements'')), t))
         \<and> (length r \<noteq> n \<longrightarrow>
              add_row fl r t
                = (Inl (ArraySizeError (''array should contain '' @ str_nat n @ '' elements'')), t))
         \<and> (length a = n \<longrightarrow>
              set_cols_align a t = (Inr (), t\<lparr>align := Some a\<rparr>)
              \<and> set_cols_valign a t = (Inr (), t\<lparr>valign := Some a\<rparr>)
              \<and> set_cols_dtype a t = (Inr (), t\<lparr>dtype := Some a\<rparr>)
              \<and> header_m a t = (Inr (), t\<lparr>header := a\<rparr>))
         \<and> (length ws = n \<longrightarrow> (\<forall>m. fst (set_cols_width il ws t) \<noteq> Inl (ArraySizeError m)))
         \<and> (length r = n \<longrightarrow> (\<forall>m. fst (add_row fl r t) \<noteq> Inl (ArraySizeError m)))"
proof -
  have w: "length ws = n \<longrightarrow> (\<forall>m. fst (set_cols_width il ws t) \<noteq> Inl (ArraySizeError m))"
  proof (intro impI allI notI)
    fix m assume l: "length ws = n" and f: "fst (set_cols_width il ws t) = Inl (ArraySizeError m)"
    from l assms have "check_row_size ws t = Inr t" by (simp add: check_row_size_fixed)
    with f show False
      by (auto simp: set_cols_width_def split: sum.splits list.splits if_splits
          dest: try_map_py_int_error)
  qed
  have r: "length r = n \<longrightarrow> (\<forall>m. fst (add_row fl r t) \<noteq> Inl (ArraySizeError m))"
  proof (intro impI allI notI)
    fix m assume l: "length r = n" and f: "fst (add_row fl r t) = Inl (ArraySizeError m)"
    from l assms have "check_row_size r t = Inr t" by (simp add: check_row_size_fixed)
    with f assms show False
      by (auto simp: add_row_def split: sum.splits option.splits dest: try_map_str_error)
  qed
  from assms w r show ?thesis
    by (simp add: set_cols_align_def set_cols_valign_def set_cols_dtype_def header_m_def
        set_cols_width_def add_row_def check_row_size_fixed Let_def)
qed

theorem fixed_count_enforced_witness:
  "row_size two_cols = Some 2 \<and> (0::nat) < 2
   \<and> header_m [''x'', ''y'', ''z''] two_cols
       = (Inl (ArraySizeError ''array should contain 2 elements''), two_cols)
   \<and> add_row py_float_of_str [PyInt 1] two_cols
       = (Inl (ArraySizeError ''array should contain 2 elements''), two_cols)
   \<and> set_cols_align [''l'', ''r''] two_cols = (Inr (), two_cols\<lparr>align := Some [''l'', ''r'']\<rparr>)
   \<and> fst (add_row py_float_of_str [PyInt 1, PyNone] two_cols) = Inr ()"
proof -
  have pos: "(0::nat) < 2" by simp
  note f = fixed_count_enforced [OF two_cols_size pos]
  have "header_m [''x'', ''y'', ''z''] two_cols
          = (Inl (ArraySizeError ''array should contain 2 elements''), two_cols)"
    using f [of "[''x'', ''y'', ''z'']"] by (simp add: str_nat_two Let_def)
  moreover have "add_row py_float_of_str [PyInt 1] two_cols
          = (Inl (ArraySizeError ''array should contain 2 elements''), two_cols)"
    using f [of _ _ _ "[PyInt 1]" py_float_of_str] by (simp add: str_nat_two)
  moreover have "set_cols_align [''l'', ''r''] two_cols
          = (Inr (), two_cols\<lparr>align := Some [''l'', ''r'']\<rparr>)"
    using f [of "[''l'', ''r'']"] by simp
  moreover have "fst (add_row py_float_of_str [PyInt 1, PyNone] two_cols) = Inr ()"
    by (simp add: add_row_def check_row_size_def two_cols_eq init_def len_def str_def
        py_float_def round_binary64_def exp2_def pow2_def py_round_def bit_len_eval
        format_number_def text_form_def str_int_def str_nat_eval Let_def upt_rec)
  ultimately show ?thesis using two_cols_size by simp
qed

text \<open>
  Claim C8 as stated fails: \<^verbatim>\<open>set_cols_width([2.5])\<close> does not fail, and it stores \<open>2\<close>, what
  \<^verbatim>\<open>int\<close> makes of \<open>2.5\<close>; and \<^verbatim>\<open>set_cols_width([])\<close> on a new table, where no width is
  wrong, stores nothing: \<^verbatim>\<open>reduce(min, [])\<close> raises \<^verbatim>\<open>TypeError\<close>.
\<close>

theorem set_cols_width_converts:
  "set_cols_width py_int_of_str [PyFloat (Finite (5 / 2))] (init 80)
     = (Inr (), (init 80)\<lparr>row_size := Some 1, width := Some [2]\<rparr>)
   \<and> set_cols_width py_int_of_str [] (init 80)
       = (Inl TypeError, (init 80)\<lparr>row_size := Some 0\<rparr>)"
proof -
  have "\<lfloor>5 / 2 :: rat\<rfloor> = 2" by (rule floor_unique) simp_all
  then show ?thesis
    by (simp add: set_cols_width_def check_row_size_def init_def len_def py_int_def)
qed

text \<open>
  Claim C8 as amended. In a call of \<^verbatim>\<open>set_cols_width\<close> whose array passes the check of the
  row size, every width goes through \<^verbatim>\<open>int\<close>: an integer is converted to itself, a finite
  float is truncated towards zero, text is parsed. An error of a conversion fails the call
  (\<^verbatim>\<open>ValueError\<close> for text that does not parse); an empty array fails it with
  \<^verbatim>\<open>TypeError\<close>; converted widths of which one is not positive fail it with \<^verbatim>\<open>ValueError\<close>;
  otherwise the converted widths are stored. These cases cover every such call.
\<close>

theorem set_cols_width_validation:
  assumes "check_row_size array t = Inr t1"
  shows "(try_map (py_int il) array = Inl e \<longrightarrow> set_cols_width il array t = (Inl e, t1))
         \<and> (try_map (py_int il) array = Inr [] \<longrightarrow>
              set_cols_width il array t = (Inl TypeError, t1))
         \<and> (try_map (py_int il) array = Inr ws \<and> ws \<noteq> [] \<and> (\<exists>w\<in>set ws. w \<le> 0) \<longrightarrow>
              set_cols_width il array t = (Inl ValueError, t1))
         \<and> (try_map (py_int il) array = Inr ws \<and> ws \<noteq> [] \<and> (\<forall>w\<in>set ws. 0 < w) \<longrightarrow>
              set_cols_width il array t = (Inr (), t1\<lparr>width := Some ws\<rparr>))
         \<and> try_map (py_int il) (map PyInt ns) = Inr ns
         \<and> py_int il (PyFloat (Finite q)) = Inr (if q < 0 then \<lceil>q\<rceil> else \<lfloor>q\<rfloor>)
         \<and> py_int il (PyStr s) = (case il s of None \<Rightarrow> Inl ValueError | Some i \<Rightarrow> Inr i)"
proof -
  have "try_map (py_int il) array = Inr ws \<and> ws \<noteq> [] \<and> (\<exists>w\<in>set ws. w \<le> 0) \<longrightarrow>
          set_cols_width il array t = (Inl ValueError, t1)"
  proof (cases ws)
    case Nil
    then show ?thesis by simp
  next
    case (Cons w ws')
    have "(\<exists>x\<in>set (w # ws'). x \<le> 0) \<longrightarrow> fold min ws' w \<le> 0" by (simp only: fold_min_le simp_thms)
    with assms Cons show ?thesis by (auto simp: set_cols_width_def)
  qed
  moreover have "try_map (py_int il) array = Inr ws \<and> ws \<noteq> [] \<and> (\<forall>w\<in>set ws. 0 < w) \<longrightarrow>
          set_cols_width il array t = (Inr (), t1\<lparr>width := Some ws\<rparr>)"
  proof (cases ws)
    case Nil
    then show ?thesis by simp
  next
    case (Cons w ws')
    have "(\<forall>x\<in>set (w # ws'). 0 < x) \<longrightarrow> \<not> fold min ws' w \<le> 0"
      by (simp only: fold_min_pos [symmetric] not_le simp_thms)
    with assms Cons show ?thesis by (auto simp: set_cols_width_def)
  qed
  moreover have "py_int il (PyFloat (Finite q)) = Inr (if q < 0 then \<lceil>q\<rceil> else \<lfloor>q\<rfloor>)"
    by (simp add: py_int_def ceiling_def)
  moreover have "py_int il (PyStr s) = (case il s of None \<Rightarrow> Inl ValueError | Some i \<Rightarrow> Inr i)"
    by (simp add: py_int_def)
  ultimately show ?thesis
    using assms by (simp add: set_cols_width_def try_map_py_int_ints)
qed

theorem set_cols_width_validation_witness:
  "check_row_size [PyInt 10, PyInt 20] two_cols = Inr two_cols
   \<and> set_cols_width py_int_of_str [PyInt 10, PyInt 20] two_cols
       = (Inr (), two_cols\<lparr>width := Some [10, 20]\<rparr>)
   \<and> set_cols_width py_int_of_str [PyInt 3, PyInt 0] two_cols = (Inl ValueError, two_cols)
   \<and> set_cols_width py_int_of_str [PyInt 3, PyNone] two_cols = (Inl TypeError, two_cols)
   \<and> check_row_size ([] :: pyval list) (init 80) = Inr ((init 80)\<lparr>row_size := Some 0\<rparr>)
   \<and> set_cols_width py_int_of_str [] (init 80) = (Inl TypeError, (init 80)\<lparr>row_size := Some 0\<rparr>)"
proof -
  have c: "\<And>x y. check_row_size [x :: pyval, y] two_cols = Inr two_cols"
    by (simp add: check_row_size_def two_cols_size len_def)
  have n: "check_row_size ([] :: pyval list) (init 80) = Inr ((init 80)\<lparr>row_size := Some 0\<rparr>)"
    by (simp add: check_row_size_def init_def len_def)
  have "set_cols_width py_int_of_str [PyInt 10, PyInt 20] two_cols
          = (Inr (), two_cols\<lparr>width := Some [10, 20]\<rparr>)"
    using set_cols_width_validation [OF c, of py_int_of_str "PyInt 10" "PyInt 20" _ "[10, 20]"]
    by (simp add: py_int_def)
  moreover have "set_cols_width py_int_of_str [PyInt 3, PyInt 0] two_cols = (Inl ValueError, two_cols)"
    using set_cols_width_validation [OF c, of py_int_of_str "PyInt 3" "PyInt 0" _ "[3, 0]"]
    by (simp add: py_int_def)
  moreover have "set_cols_width py_int_of_str [PyInt 3, PyNone] two_cols = (Inl TypeError, two_cols)"
    using set_cols_width_validation [OF c, of py_int_of_str "PyInt 3" PyNone TypeError]
    by (simp add: py_int_def)
  moreover have "set_cols_width py_int_of_str [] (init 80)
                   = (Inl TypeError, (init 80)\<lparr>row_size := Some 0\<rparr>)"
    using set_cols_width_validation [OF n, of py_int_of_str] by simp
  ultimately show ?thesis using c n by simp
qed

section \<open>Drawing a table\<close>

text \<open>
  Claim C9. \<^verbatim>\<open>draw\<close> on a table with no header and no rows returns \<^verbatim>\<open>None\<close>, raises
  nothing and leaves the table as it is.
\<close>

theorem draw_empty:
  assumes "header t = []" and "rows t = []"
  shows "draw wr t = Some (Inr None, t)"
  using assms by (simp add: draw_def)

theorem draw_empty_witness:
  "header (init 80) = [] \<and> rows (init 80) = []
   \<and> draw textwrap_wrap (init 80) = Some (Inr None, init 80)"
proof -
  have h: "header (init 80) = []" and r: "rows (init 80) = []" by (simp_all add: init_def)
  from draw_empty [OF h r] h r show ?thesis by simp
qed

subsection \<open>A second \<^verbatim>\<open>draw\<close> after a row was added\<close>

text \<open>Rules to evaluate text, decorations and the wrapping on given cells.\<close>

lemmas text_eval =
  ESC_def NL_def TAB_def ENDC_def len_def is_space_def strip_def is_digit_def split_sign_def
  lower_def digits_val_def digit_val_def

lemma parse_a: "py_float_of_str ''a'' = None"
  by (simp add: py_float_of_str_def text_eval Let_def)

lemma parse_b: "py_float_of_str ''bbbbbb'' = None"
  by (simp add: py_float_of_str_def text_eval Let_def)

lemma one_row_eq:
  "one_row = (init 80)\<lparr>row_size := Some 1, dtype := Some [''a''], rows := [[''a'']]\<rparr>"
  by (simp add: one_row_def add_row_def check_row_size_def init_def len_def str_def py_float_def
      parse_a text_form_def upt_rec)

lemmas deco_eval = has_border_def has_vlines_def has_hlines_def has_header_def
  BORDER_def HEADER_def HLINES_def VLINES_def

lemmas wrap_eval = textwrap_wrap_def wrap_chunks.simps skip_blank_def one_line_def drop_blank_def
  blank_def is_space_def len_def

lemma plain_deco:
  "plain t \<Longrightarrow> has_border t" "plain t \<Longrightarrow> has_vlines t" "plain t \<Longrightarrow> has_hlines t"
  "plain t \<Longrightarrow> has_header t"
  by (simp_all add: plain_def deco_eval)

lemma plain_chars:
  "plain t \<Longrightarrow> char_horiz t = ''-''" "plain t \<Longrightarrow> char_vert t = ''|''"
  "plain t \<Longrightarrow> char_corner t = ''+''" "plain t \<Longrightarrow> char_header t = ''=''"
  by (simp_all add: plain_def)

lemma plain_init: "plain (init mw)"
  by (simp add: plain_def init_def deco_eval)

lemma natural_one_row: "natural_widths one_row = [1]"
  by (simp add: one_row_eq init_def natural_widths_def widen_def len_cell_def len_line_def
      text_eval upt_rec)

lemma hline_1:
  assumes "plain t" and "width t = Some [1]"
  shows "build_hline False t = Inr (''+---+'' @ [NL])"
  using assms by (simp add: build_hline_def times_def plain_deco plain_chars)

lemma splitit_a:
  assumes "width t = Some [1]" and "valign t = Some [''t'']"
  shows "splitit textwrap_wrap [''a''] False t = Inr [[''a'']]"
  using assms by (simp add: splitit_def pad_cell_def keep_step_def wrap_eval text_eval)

lemma draw_line_a:
  assumes "plain t" and "width t = Some [1]" and "valign t = Some [''t'']"
    and "align t = Some [''l'']"
  shows "draw_line textwrap_wrap [''a''] False t = Inr (''| a |'' @ [NL])"
  using assms
  by (simp add: draw_line_def splitit_a draw_cell_def times_def plain_deco plain_chars
      text_eval upt_rec)

lemma hline_cached:
  "hline_string t = Some s \<Longrightarrow> s \<noteq> [] \<Longrightarrow>
   hline t = (Inr (case hline_string t of Some x \<Rightarrow> x | None \<Rightarrow> []), t)"
  by (simp add: hline_def)

lemma hline_fresh:
  "hline_string t = None \<Longrightarrow>
   hline t = (case build_hline False t of
                Inl e \<Rightarrow> (Inl e, t)
              | Inr s \<Rightarrow> (Inr s, t\<lparr>hline_string := Some s\<rparr>))"
  by (simp add: hline_def)

lemma plain_update [simp]:
  "plain (t\<lparr>hline_string := h\<rparr>) = plain t" "plain (t\<lparr>width := w\<rparr>) = plain t"
  "plain (t\<lparr>align := a\<rparr>) = plain t" "plain (t\<lparr>valign := v\<rparr>) = plain t"
  "plain (t\<lparr>rows := r\<rparr>) = plain t" "plain (t\<lparr>row_size := n\<rparr>) = plain t"
  "plain (t\<lparr>dtype := d\<rparr>) = plain t" "plain (t\<lparr>header := hs\<rparr>) = plain t"
  by (simp_all add: plain_def)

lemma plain_one_row: "plain one_row"
  by (simp add: one_row_eq plain_init)

lemma one_row_fields:
  "width one_row = None" "max_width one_row = 80" "rows one_row = [[''a'']]"
  "header one_row = []" "align one_row = None" "valign one_row = None"
  "row_size one_row = Some 1" "hline_string one_row = None"
  by (simp_all add: one_row_eq init_def)

lemma draw_one_row:
  "draw textwrap_wrap one_row
     = Some (Inr (Some (''+---+'' @ [NL] @ ''| a |'' @ [NL] @ ''+---+'')), one_row_drawn)"
proof -
  let ?t1 = "one_row\<lparr>width := Some [1]\<rparr>"
  let ?t2 = "?t1\<lparr>align := Some [''l''], valign := Some [''t'']\<rparr>"
  have c: "compute_cols_width one_row = Some (Inr ?t1)"
    by (simp add: compute_cols_width_def fit_widths_def natural_one_row one_row_fields len_def)
  have a: "check_align ?t1 = Inr ?t2"
    by (simp add: check_align_def default_cols_def one_row_fields)
  have "draw_table textwrap_wrap ?t2
          = (Inr (Some (''+---+'' @ [NL] @ ''| a |'' @ [NL] @ ''+---+'')), one_row_drawn)"
    by (simp add: draw_table_def hline_fresh hline_cached hline_1 draw_line_a plain_deco
        plain_one_row one_row_fields len_def butlast_append one_row_drawn_def)
  then show ?thesis by (simp add: draw_def c a one_row_fields)
qed

lemma two_rows_eq: "two_rows = one_row_drawn\<lparr>rows := [[''a''], [''bbbbbb'']]\<rparr>"
  by (simp add: two_rows_def add_row_def check_row_size_def one_row_drawn_def one_row_eq init_def
      len_def str_def py_float_def parse_b text_form_def upt_rec)

lemma two_rows_fields:
  "width two_rows = Some [1]" "max_width two_rows = 80" "rows two_rows = [[''a''], [''bbbbbb'']]"
  "header two_rows = []" "align two_rows = Some [''l'']" "valign two_rows = Some [''t'']"
  "hline_string two_rows = Some (''+---+'' @ [NL])"
  by (simp_all add: two_rows_eq one_row_drawn_def one_row_eq init_def)

lemma plain_two_rows: "plain two_rows"
  by (simp add: two_rows_eq one_row_drawn_def plain_one_row)

lemma natural_two_rows: "natural_widths two_rows = [6]"
  by (simp add: two_rows_fields natural_widths_def widen_def len_cell_def len_line_def
      text_eval upt_rec)

lemma wrap_b: "textwrap_wrap ''bbbbbb'' 1 = Inr [''b'', ''b'', ''b'', ''b'', ''b'', ''b'']"
  by (simp add: wrap_eval)

lemma draw_line_b:
  assumes "plain t" and "width t = Some [1]" and "valign t = Some [''t'']"
    and "align t = Some [''l'']"
  shows "draw_line textwrap_wrap [''bbbbbb''] False t
           = Inr (''| b |'' @ [NL] @ ''| b |'' @ [NL] @ ''| b |'' @ [NL]
                  @ ''| b |'' @ [NL] @ ''| b |'' @ [NL] @ ''| b |'' @ [NL])"
  using assms
  by (simp add: draw_line_def splitit_def pad_cell_def keep_step_def wrap_b draw_cell_def
      times_def plain_deco plain_chars text_eval upt_rec)

lemma draw_two_rows:
  "draw textwrap_wrap two_rows
     = Some (Inr (Some (''+---+'' @ [NL] @ ''| a |'' @ [NL] @ ''+---+'' @ [NL]
                        @ ''| b |'' @ [NL] @ ''| b |'' @ [NL] @ ''| b |'' @ [NL]
                        @ ''| b |'' @ [NL] @ ''| b |'' @ [NL] @ ''| b |'' @ [NL] @ ''+---+'')),
             two_rows)"
proof -
  have c: "compute_cols_width two_rows = Some (Inr two_rows)"
    by (simp add: compute_cols_width_def two_rows_fields)
  have a: "check_align two_rows = Inr two_rows"
    by (simp add: check_align_def two_rows_fields)
  have "draw_table textwrap_wrap two_rows
          = (Inr (Some (''+---+'' @ [NL] @ ''| a |'' @ [NL] @ ''+---+'' @ [NL]
                        @ ''| b |'' @ [NL] @ ''| b |'' @ [NL] @ ''| b |'' @ [NL]
                        @ ''| b |'' @ [NL] @ ''| b |'' @ [NL] @ ''| b |'' @ [NL] @ ''+---+'')),
             two_rows)"
    by (simp add: draw_table_def hline_cached draw_line_a draw_line_b plain_deco
        plain_two_rows two_rows_fields len_def butlast_append)
  then show ?thesis by (simp add: draw_def c a two_rows_fields)
qed

lemma both_rows_eq: "both_rows = one_row\<lparr>rows := [[''a''], [''bbbbbb'']]\<rparr>"
  by (simp add: both_rows_def add_row_def check_row_size_def one_row_eq init_def
      len_def str_def py_float_def parse_b text_form_def upt_rec)

lemma compute_both_rows: "compute_cols_width both_rows = Some (Inr (both_rows\<lparr>width := Some [6]\<rparr>))"
proof -
  have "natural_widths both_rows = [6]"
    by (simp add: both_rows_eq one_row_eq init_def natural_widths_def widen_def len_cell_def
        len_line_def text_eval upt_rec)
  then show ?thesis
    by (simp add: compute_cols_width_def fit_widths_def both_rows_eq one_row_fields len_def)
qed

text \<open>
  Once \<^verbatim>\<open>_width\<close> exists, whoever set it, \<^verbatim>\<open>_compute_cols_width\<close> changes nothing, and a
  border that was built is returned as it is.
\<close>

lemma compute_cols_width_kept: "width t = Some ws \<Longrightarrow> compute_cols_width t = Some (Inr t)"
  by (simp add: compute_cols_width_def)

lemma hline_kept: "hline_string t = Some s \<Longrightarrow> s \<noteq> [] \<Longrightarrow> hline t = (Inr s, t)"
  by (simp add: hline_def)

text \<open>
  Claim C2. The first \<^verbatim>\<open>draw\<close> stores the widths it computed in \<^verbatim>\<open>_width\<close> and the border
  in \<^verbatim>\<open>_hline_string\<close>, and \<^verbatim>\<open>_compute_cols_width\<close> returns at once when \<^verbatim>\<open>_width\<close> exists:
  a row added after a first \<^verbatim>\<open>draw\<close> is drawn with the widths of the first. The table
  of the rows \<^verbatim>\<open>["a"]\<close> and \<^verbatim>\<open>["bbbbbb"]\<close> gets the width 6 when both rows are added before
  the first \<^verbatim>\<open>draw\<close>, and keeps the width 1 when the second is added after it.
\<close>

theorem second_draw_keeps_first_layout:
  "draw textwrap_wrap one_row
     = Some (Inr (Some (''+---+'' @ [NL] @ ''| a |'' @ [NL] @ ''+---+'')), one_row_drawn)
   \<and> two_rows = snd (add_row py_float_of_str [PyStr ''bbbbbb''] one_row_drawn)
   \<and> rows two_rows = [[''a''], [''bbbbbb'']] \<and> natural_widths two_rows = [6]
   \<and> compute_cols_width two_rows = Some (Inr two_rows) \<and> width two_rows = Some [1]
   \<and> draw textwrap_wrap two_rows
       = Some (Inr (Some (''+---+'' @ [NL] @ ''| a |'' @ [NL] @ ''+---+'' @ [NL]
                          @ ''| b |'' @ [NL] @ ''| b |'' @ [NL] @ ''| b |'' @ [NL]
                          @ ''| b |'' @ [NL] @ ''| b |'' @ [NL] @ ''| b |'' @ [NL] @ ''+---+'')),
               two_rows)
   \<and> rows both_rows = rows two_rows
   \<and> compute_cols_width both_rows = Some (Inr (both_rows\<lparr>width := Some [6]\<rparr>))"
proof -
  have "compute_cols_width two_rows = Some (Inr two_rows)"
    by (simp add: compute_cols_width_def two_rows_fields)
  moreover have "rows both_rows = [[''a''], [''bbbbbb'']]"
    by (simp add: both_rows_eq)
  ultimately show ?thesis
    by (simp add: draw_one_row draw_two_rows two_rows_def [symmetric] two_rows_fields
        natural_two_rows compute_both_rows)
qed

subsection \<open>The widths of a table that was drawn\<close>

lemma parse_long: "py_float_of_str ''bbbbbbbbbbbbbbbbbbbb'' = None"
  by (simp add: py_float_of_str_def text_eval Let_def)

lemma narrow_row_eq:
  "narrow_row = (init 10)\<lparr>row_size := Some 1, dtype := Some [''a''], rows := [[''a'']]\<rparr>"
  by (simp add: narrow_row_def add_row_def check_row_size_def init_def len_def str_def py_float_def
      parse_a text_form_def upt_rec)

lemma narrow_row_fields:
  "width narrow_row = None" "max_width narrow_row = 10" "rows narrow_row = [[''a'']]"
  "header narrow_row = []" "align narrow_row = None" "valign narrow_row = None"
  "row_size narrow_row = Some 1" "hline_string narrow_row = None"
  by (simp_all add: narrow_row_eq init_def)

lemma plain_narrow_row: "plain narrow_row"
  by (simp add: narrow_row_eq plain_init)

lemma natural_narrow_row: "natural_widths narrow_row = [1]"
  by (simp add: narrow_row_eq init_def natural_widths_def widen_def len_cell_def len_line_def
      text_eval upt_rec)

lemma draw_narrow_row:
  "draw textwrap_wrap narrow_row
     = Some (Inr (Some (''+---+'' @ [NL] @ ''| a |'' @ [NL] @ ''+---+'')), narrow_row_drawn)"
proof -
  let ?t1 = "narrow_row\<lparr>width := Some [1]\<rparr>"
  let ?t2 = "?t1\<lparr>align := Some [''l''], valign := Some [''t'']\<rparr>"
  have c: "compute_cols_width narrow_row = Some (Inr ?t1)"
    by (simp add: compute_cols_width_def fit_widths_def natural_narrow_row narrow_row_fields len_def)
  have a: "check_align ?t1 = Inr ?t2"
    by (simp add: check_align_def default_cols_def narrow_row_fields)
  have "draw_table textwrap_wrap ?t2
          = (Inr (Some (''+---+'' @ [NL] @ ''| a |'' @ [NL] @ ''+---+'')), narrow_row_drawn)"
    by (simp add: draw_table_def hline_fresh hline_cached hline_1 draw_line_a plain_deco
        plain_narrow_row narrow_row_fields len_def butlast_append narrow_row_drawn_def)
  then show ?thesis by (simp add: draw_def c a narrow_row_fields)
qed

lemma narrow_late_eq:
  "narrow_late = narrow_row_drawn\<lparr>rows := [[''a''], [''bbbbbbbbbbbbbbbbbbbb'']]\<rparr>"
  by (simp add: narrow_late_def add_row_def check_row_size_def narrow_row_drawn_def narrow_row_eq
      init_def len_def str_def py_float_def parse_long text_form_def upt_rec)

lemma narrow_late_fields:
  "width narrow_late = Some [1]" "max_width narrow_late = 10"
  "rows narrow_late = [[''a''], [''bbbbbbbbbbbbbbbbbbbb'']]" "header narrow_late = []"
  by (simp_all add: narrow_late_eq narrow_row_drawn_def narrow_row_eq init_def)

lemma natural_narrow_late: "natural_widths narrow_late = [20]"
  by (simp add: narrow_late_fields natural_widths_def widen_def len_cell_def len_line_def
      text_eval upt_rec)

lemma narrow_early_eq: "narrow_early = narrow_row\<lparr>rows := [[''a''], [''bbbbbbbbbbbbbbbbbbbb'']]\<rparr>"
  by (simp add: narrow_early_def add_row_def check_row_size_def narrow_row_eq init_def
      len_def str_def py_float_def parse_long text_form_def upt_rec)

lemma natural_narrow_early: "natural_widths narrow_early = [20]"
  by (simp add: narrow_early_eq narrow_row_eq init_def natural_widths_def widen_def len_cell_def
      len_line_def text_eval upt_rec)

lemma spec_widths_narrow: "spec_widths 10 [20] = [6]"
  by (simp add: spec_widths_def spec_redistribute.simps spec_start_def spec_slack_def
      spec_budget_def spec_oversized_def)

lemma compute_narrow_early:
  "compute_cols_width narrow_early = Some (Inr (narrow_early\<lparr>width := Some [6]\<rparr>))"
proof -
  have w: "width narrow_early = None" and m: "max_width narrow_early = 10"
    by (simp_all add: narrow_early_eq narrow_row_fields)
  from first_render_redistributes [of narrow_early] w m show ?thesis
    by (simp add: natural_narrow_early spec_widths_narrow)
qed

lemma wrap_long:
  "textwrap_wrap ''bbbbbbbbbbbbbbbbbbbb'' 1
     = Inr (replicate 20 ''b'')"
  by (simp add: wrap_eval eval_nat_numeral)

lemma draw_line_long:
  assumes "plain t" and "width t = Some [1]" and "valign t = Some [''t'']"
    and "align t = Some [''l'']"
  shows "draw_line textwrap_wrap [''bbbbbbbbbbbbbbbbbbbb''] False t
           = Inr (concat (replicate 20 (''| b |'' @ [NL])))"
  using assms
  by (simp add: draw_line_def splitit_def pad_cell_def keep_step_def wrap_long draw_cell_def
      times_def plain_deco plain_chars text_eval upt_rec eval_nat_numeral)

lemma narrow_late_more:
  "align narrow_late = Some [''l'']" "valign narrow_late = Some [''t'']"
  "hline_string narrow_late = Some (''+---+'' @ [NL])"
  by (simp_all add: narrow_late_eq narrow_row_drawn_def narrow_row_eq init_def)

lemma plain_narrow_late: "plain narrow_late"
  by (simp add: narrow_late_eq narrow_row_drawn_def plain_narrow_row)

lemma draw_narrow_late:
  "draw textwrap_wrap narrow_late
     = Some (Inr (Some (''+---+'' @ [NL] @ ''| a |'' @ [NL] @ ''+---+'' @ [NL]
                        @ concat (replicate 20 (''| b |'' @ [NL])) @ ''+---+'')),
             narrow_late)"
proof -
  have c: "compute_cols_width narrow_late = Some (Inr narrow_late)"
    by (simp add: compute_cols_width_def narrow_late_fields)
  have a: "check_align narrow_late = Inr narrow_late"
    by (simp add: check_align_def narrow_late_fields narrow_late_more)
  have "draw_table textwrap_wrap narrow_late
          = (Inr (Some (''+---+'' @ [NL] @ ''| a |'' @ [NL] @ ''+---+'' @ [NL]
                        @ concat (replicate 20 (''| b |'' @ [NL])) @ ''+---+'')),
             narrow_late)"
    by (simp add: draw_table_def hline_cached draw_line_a draw_line_long plain_deco
        plain_narrow_late narrow_late_fields narrow_late_more len_def butlast_append)
  then show ?thesis by (simp add: draw_def c a narrow_late_fields)
qed

text \<open>
  Claim C1. On a table in which \<^verbatim>\<open>_width\<close> does not exist the widths are those of the
  redistribution (\<open>first_render_redistributes\<close>). But the method stores its result in
  \<^verbatim>\<open>_width\<close> and returns at once when \<^verbatim>\<open>_width\<close> exists, so a table that was drawn keeps
  its widths although no width was ever set: with \<open>max_width = 10\<close>, the row \<^verbatim>\<open>["a"]\<close>, a
  \<^verbatim>\<open>draw\<close> and then a row of 20 characters, the natural width is 20, the table does not
  fit, the redistribution gives the width 6, and the column is drawn with the width 1.
  The same rows added before the first \<^verbatim>\<open>draw\<close> get the width 6.
\<close>

theorem drawn_table_keeps_widths:
  "draw textwrap_wrap narrow_row
     = Some (Inr (Some (''+---+'' @ [NL] @ ''| a |'' @ [NL] @ ''+---+'')), narrow_row_drawn)
   \<and> narrow_late = snd (add_row py_float_of_str [PyStr ''bbbbbbbbbbbbbbbbbbbb''] narrow_row_drawn)
   \<and> max_width narrow_late = 10 \<and> natural_widths narrow_late = [20]
   \<and> max_width narrow_late
       < sum_list (natural_widths narrow_late) + 3 * int (length (natural_widths narrow_late)) + 1
   \<and> spec_widths (max_width narrow_late) (natural_widths narrow_late) = [6]
   \<and> compute_cols_width narrow_late = Some (Inr narrow_late) \<and> width narrow_late = Some [1]
   \<and> draw textwrap_wrap narrow_late
       = Some (Inr (Some (''+---+'' @ [NL] @ ''| a |'' @ [NL] @ ''+---+'' @ [NL]
                          @ concat (replicate 20 (''| b |'' @ [NL])) @ ''+---+'')),
               narrow_late)
   \<and> rows narrow_early = rows narrow_late
   \<and> compute_cols_width narrow_early = Some (Inr (narrow_early\<lparr>width := Some [6]\<rparr>))"
proof -
  have "compute_cols_width narrow_late = Some (Inr narrow_late)"
    by (simp add: compute_cols_width_def narrow_late_fields)
  moreover have "rows narrow_early = [[''a''], [''bbbbbbbbbbbbbbbbbbbb'']]"
    by (simp add: narrow_early_eq)
  ultimately show ?thesis
    by (simp add: draw_narrow_row draw_narrow_late narrow_late_def [symmetric] narrow_late_fields
        natural_narrow_late spec_widths_narrow compute_narrow_early)
qed

subsection \<open>Escape sequences in a wrapped cell\<close>

lemma parse_red: "py_float_of_str red_cell = None"
  by (simp add: red_cell_def py_float_of_str_def text_eval Let_def)

lemma red_table_eq:
  "red_table = (init 7)\<lparr>row_size := Some 1, dtype := Some [''a''], rows := [[red_cell]]\<rparr>"
  by (simp add: red_table_def add_row_def check_row_size_def init_def len_def str_def py_float_def
      parse_red text_form_def upt_rec)

lemma red_table_fields:
  "width red_table = None" "max_width red_table = 7" "rows red_table = [[red_cell]]"
  "header red_table = []" "align red_table = None" "valign red_table = None"
  "row_size red_table = Some 1" "hline_string red_table = None"
  by (simp_all add: red_table_eq init_def)

lemma plain_red_table: "plain red_table"
  by (simp add: red_table_eq plain_init)

lemma natural_red: "natural_widths red_table = [7]"
  by (simp add: red_table_fields natural_widths_def widen_def len_cell_def len_line_def
      red_cell_def text_eval upt_rec)

lemma shrink_red: "fit_widths 7 [7] = Some (Inr [3])"
  by (simp add: fit_widths_def shrink_def distribute.simps reduce_step_def len_def)

lemma wrap_red:
  "textwrap_wrap red_cell 12 = Inr [ESC # ''[91maaa'', ''bbb'' @ ENDC]"
  by (simp add: red_cell_def wrap_eval text_eval)

lemma find_red: "find_ansi red_cell = [ESC # ''[91m'', ENDC]"
  by (simp add: red_cell_def text_eval)

lemma splitit_red:
  assumes "width t = Some [3]" and "valign t = Some [''t'']"
  shows "splitit textwrap_wrap [red_cell] False t = Inr [[ESC # ''[91maaa'', ''bbb'' @ ENDC]]"
proof -
  have "split_on NL red_cell = [red_cell]" by (simp add: red_cell_def text_eval)
  moreover have "fold keep_step (find_ansi red_cell) [] = []"
    by (simp add: find_red keep_step_def text_eval)
  moreover have "int (sum_list (map len (find_ansi red_cell))) = 9"
    by (simp add: find_red text_eval)
  ultimately show ?thesis
    using assms by (simp add: splitit_def pad_cell_def wrap_red len_def)
qed

lemma hline_3:
  assumes "plain t" and "width t = Some [3]"
  shows "build_hline False t = Inr (''+-----+'' @ [NL])"
  using assms by (simp add: build_hline_def times_def plain_deco plain_chars eval_nat_numeral)

lemma draw_line_red:
  assumes "plain t" and "width t = Some [3]" and "valign t = Some [''t'']"
    and "align t = Some [''l'']"
  shows "draw_line textwrap_wrap [red_cell] False t
           = Inr (''| '' @ ESC # ''[91maaa |'' @ [NL] @ ''| bbb'' @ ENDC @ '' |'' @ [NL])"
  using assms
  by (simp add: draw_line_def splitit_red draw_cell_def times_def plain_deco plain_chars
      text_eval upt_rec)

lemma draw_red_table:
  "draw textwrap_wrap red_table
     = Some (Inr (Some (''+-----+'' @ [NL] @ ''| '' @ ESC # ''[91maaa |'' @ [NL]
                        @ ''| bbb'' @ ENDC @ '' |'' @ [NL] @ ''+-----+'')),
             red_table_drawn)"
proof -
  let ?t1 = "red_table\<lparr>width := Some [3]\<rparr>"
  let ?t2 = "?t1\<lparr>align := Some [''l''], valign := Some [''t'']\<rparr>"
  have c: "compute_cols_width red_table = Some (Inr ?t1)"
    by (simp add: compute_cols_width_def natural_red shrink_red red_table_fields)
  have a: "check_align ?t1 = Inr ?t2"
    by (simp add: check_align_def default_cols_def red_table_fields)
  have "draw_table textwrap_wrap ?t2
          = (Inr (Some (''+-----+'' @ [NL] @ ''| '' @ ESC # ''[91maaa |'' @ [NL]
                        @ ''| bbb'' @ ENDC @ '' |'' @ [NL] @ ''+-----+'')),
             red_table_drawn)"
    by (simp add: draw_table_def hline_fresh hline_cached hline_3 draw_line_red plain_deco
        plain_red_table red_table_fields len_def butlast_append red_table_drawn_def)
  then show ?thesis by (simp add: draw_def c a red_table_fields)
qed

lemma newline_resets:
  "wrap_lines textwrap_wrap 3 [] (split_on NL (ESC # ''[91maaa'' @ [NL] @ ''bbb'' @ ENDC))
     = Inr [ESC # ''[91maaa'' @ ENDC, ESC # ''[91mbbb'' @ ENDC]"
  by (simp add: keep_step_def wrap_eval text_eval Let_def)

text \<open>
  A cell without a newline is handed to the wrapping as one line, closed by one reset for
  every code left open, and its fragments are what the wrapping returns: nothing is put
  between them.
\<close>

lemma split_on_absent: "d \<notin> set s \<Longrightarrow> split_on d s = [s]"
  by (induction s) auto

lemma wrap_lines_one_line:
  assumes "NL \<notin> set cell"
  shows "wrap_lines wr w [] (split_on NL cell)
           = wr (cell @ concat (replicate (len (fold keep_step (find_ansi cell) [])) ENDC))
                (w + (int (sum_list (map len (find_ansi cell)))
                      + int (len (concat (replicate (len (fold keep_step (find_ansi cell) []))
                                            ENDC)))))"
  using assms by (simp add: split_on_absent Let_def split: sum.splits)

text \<open>
  Claim C6. \<^verbatim>\<open>_splitit\<close> resets and re-opens the open codes between the lines of
  \<^verbatim>\<open>cell.split("\n")\<close> only; the fragments that \<^verbatim>\<open>textwrap.wrap\<close> makes of one such line are
  taken as they come. The cell \<^verbatim>\<open>"\x1b[91maaa bbb\x1b[0m"\<close> in a column of width 3 is
  wrapped into \<^verbatim>\<open>"\x1b[91maaa"\<close>, whose code stays open to the end of the physical line
  (the border after it included), and \<^verbatim>\<open>"bbb\x1b[0m"\<close>, which does not re-open it. With a
  newline in place of the blank both lines are closed and re-opened.
\<close>

theorem wrap_point_leaves_code_open:
  "splitit textwrap_wrap [red_cell] False red_table_drawn
     = Inr [[ESC # ''[91maaa'', ''bbb'' @ ENDC]]
   \<and> fold keep_step (find_ansi (ESC # ''[91maaa'')) [] = [ESC # ''[91m'']
   \<and> find_ansi (''bbb'' @ ENDC) = [ENDC]
   \<and> draw textwrap_wrap red_table
       = Some (Inr (Some (''+-----+'' @ [NL] @ ''| '' @ ESC # ''[91maaa |'' @ [NL]
                          @ ''| bbb'' @ ENDC @ '' |'' @ [NL] @ ''+-----+'')),
               red_table_drawn)
   \<and> wrap_lines textwrap_wrap 3 [] (split_on NL (ESC # ''[91maaa'' @ [NL] @ ''bbb'' @ ENDC))
       = Inr [ESC # ''[91maaa'' @ ENDC, ESC # ''[91mbbb'' @ ENDC]"
proof -
  have "splitit textwrap_wrap [red_cell] False red_table_drawn
          = Inr [[ESC # ''[91maaa'', ''bbb'' @ ENDC]]"
    by (rule splitit_red) (simp_all add: red_table_drawn_def)
  moreover have "fold keep_step (find_ansi (ESC # ''[91maaa'')) [] = [ESC # ''[91m'']"
    by (simp add: keep_step_def text_eval)
  moreover have "find_ansi (''bbb'' @ ENDC) = [ENDC]"
    by (simp add: text_eval)
  ultimately show ?thesis
    using draw_red_table newline_resets by simp
qed

end
